theory Spec2Isabelle
  imports Complex_Main
begin

section \<open>JavaScript values\<close>

text \<open>
  The audit script (\<^verbatim>\<open>audit-tokens.js\<close>) works on two values returned by
  \<^verbatim>\<open>JSON.parse\<close>.  A number is an IEEE double: a finite one is represented by its exact
  rational value; overflowing literals give the infinities.  A string is a list of
  characters.  An object is the list of its own properties in the order in which
  \<^verbatim>\<open>Object.entries\<close> enumerates them (keys are distinct in a parsed object); an array is
  the list of its elements.  The result of reading a property is a \<open>json option\<close>, where
  \<open>None\<close> is \<^verbatim>\<open>undefined\<close>.
\<close>

datatype jsnum = NaN | NegInf | Fin rat | PosInf

datatype json =
    JNull
  | JBool bool
  | JNum jsnum
  | JStr string
  | JArr "json list"
  | JObj "(string \<times> json) list"

text \<open>
  The uncaught exceptions the script can raise.  All of them are \<^verbatim>\<open>TypeError\<close>s of the
  JavaScript runtime; the script has no \<^verbatim>\<open>try\<close> around its checkers, so each of them
  ends the process before \<^verbatim>\<open>printResults\<close> runs.
\<close>

datatype error =
    NotAFunction              \<comment> \<open>calling a property that is not callable\<close>
  | InOperatorOnPrimitive     \<comment> \<open>\<^verbatim>\<open>prop in v\<close> where \<^verbatim>\<open>v\<close> is not an object\<close>
  | CannotConvertToPrimitive  \<comment> \<open>\<^verbatim>\<open>ToPrimitive\<close> finds no callable \<^verbatim>\<open>toString\<close>/\<^verbatim>\<open>valueOf\<close>\<close>
  | CannotConvertToObject     \<comment> \<open>\<^verbatim>\<open>Object.entries(null)\<close>\<close>

definition bind_e :: "error + 'a \<Rightarrow> ('a \<Rightarrow> error + 'b) \<Rightarrow> error + 'b" where
  "bind_e m f = (case m of Inl e \<Rightarrow> Inl e | Inr x \<Rightarrow> f x)"

text \<open>
  Two conversions of the runtime are taken as parameters: \<^verbatim>\<open>StringToNumber\<close> (the numeric
  value of a string operand of \<^verbatim>\<open><\<close>, \<^verbatim>\<open>>\<close> and \<^verbatim>\<open>%\<close>) and \<^verbatim>\<open>Number::toString\<close> (the text of a
  number inside a template literal).  Every statement below holds for all of their
  values.
\<close>

record runtime =
  StringToNumber :: "string \<Rightarrow> jsnum"
  NumberToString :: "jsnum \<Rightarrow> string"

subsection \<open>Strings\<close>

definition startsWith :: "string \<Rightarrow> string \<Rightarrow> bool" where
  "startsWith s pre = (take (length pre) s = pre)"

definition endsWith :: "string \<Rightarrow> string \<Rightarrow> bool" where
  "endsWith s suf = (length suf \<le> length s \<and> drop (length s - length suf) s = suf)"

fun join :: "string \<Rightarrow> string list \<Rightarrow> string" where
  "join sep [] = []"
| "join sep [x] = x"
| "join sep (x # y # ys) = x @ sep @ join sep (y # ys)"

definition digit :: "nat \<Rightarrow> char" where
  "digit n = ''0123456789'' ! n"

fun show_nat :: "nat \<Rightarrow> string" where
  "show_nat n = (if n < 10 then [digit n] else show_nat (n div 10) @ [digit (n mod 10)])"

declare show_nat.simps [simp del]

definition toLowerChar :: "char \<Rightarrow> char" where
  "toLowerChar c =
     (let n = of_char c :: nat in if 65 \<le> n \<and> n \<le> 90 then char_of (n + 32) else c)"

definition toLowerCase :: "string \<Rightarrow> string" where
  "toLowerCase s = map toLowerChar s"

definition getTokenPath :: "string list \<Rightarrow> string" where
  "getTokenPath pathArray = join ''.'' pathArray"

subsection \<open>Property access, \<^verbatim>\<open>typeof\<close>, truthiness\<close>

text \<open>
  \<open>has_own k v\<close> is \<^verbatim>\<open>k in v\<close> for an object or array \<open>v\<close> and one of the property names
  the script probes (\<^verbatim>\<open>$value\<close>, \<^verbatim>\<open>colorSpace\<close>, \<^verbatim>\<open>components\<close>, \<^verbatim>\<open>alpha\<close>, \<^verbatim>\<open>hex\<close>, \<^verbatim>\<open>value\<close>,
  \<^verbatim>\<open>unit\<close>, \<^verbatim>\<open>fontFamily\<close>, \<^verbatim>\<open>fontSize\<close>, \<^verbatim>\<open>fontWeight\<close>, \<^verbatim>\<open>lineHeight\<close>, \<^verbatim>\<open>offsetX\<close>, \<^verbatim>\<open>offsetY\<close>,
  \<^verbatim>\<open>blur\<close>, \<^verbatim>\<open>color\<close>): none of them is inherited from \<^verbatim>\<open>Object.prototype\<close> or
  \<^verbatim>\<open>Array.prototype\<close>, and none is an array index.  \<open>getp v k\<close> is \<^verbatim>\<open>v.k\<close> for the names the
  script reads (\<^verbatim>\<open>$type\<close>, \<^verbatim>\<open>$value\<close>, \<^verbatim>\<open>$description\<close>, \<^verbatim>\<open>$extensions\<close>, \<^verbatim>\<open>opacity\<close>,
  \<^verbatim>\<open>contrast\<close> and the names above) on a value that is not \<^verbatim>\<open>null\<close>.
\<close>

fun has_own :: "string \<Rightarrow> json \<Rightarrow> bool" where
  "has_own k (JObj kvs) = (k \<in> set (map fst kvs))"
| "has_own k _ = False"

fun getp :: "json \<Rightarrow> string \<Rightarrow> json option" where
  "getp (JObj kvs) k = map_of kvs k"
| "getp _ k = None"

fun typeof :: "json option \<Rightarrow> string" where
  "typeof None = ''undefined''"
| "typeof (Some JNull) = ''object''"
| "typeof (Some (JBool b)) = ''boolean''"
| "typeof (Some (JNum n)) = ''number''"
| "typeof (Some (JStr s)) = ''string''"
| "typeof (Some (JArr xs)) = ''object''"
| "typeof (Some (JObj kvs)) = ''object''"

fun truthy :: "json option \<Rightarrow> bool" where
  "truthy None = False"
| "truthy (Some JNull) = False"
| "truthy (Some (JBool b)) = b"
| "truthy (Some (JNum n)) = (n \<noteq> Fin 0 \<and> n \<noteq> NaN)"
| "truthy (Some (JStr s)) = (s \<noteq> [])"
| "truthy (Some (JArr xs)) = True"
| "truthy (Some (JObj kvs)) = True"

text \<open>\<^verbatim>\<open>value && typeof value === 'object'\<close>\<close>

fun isObject :: "json \<Rightarrow> bool" where
  "isObject (JArr xs) = True"
| "isObject (JObj kvs) = True"
| "isObject _ = False"

fun isArray :: "json \<Rightarrow> bool" where
  "isArray (JArr xs) = True"
| "isArray _ = False"

text \<open>\<^verbatim>\<open>Object.entries\<close> and \<^verbatim>\<open>Object.values\<close> of an object or array.\<close>

fun entries :: "json \<Rightarrow> (string \<times> json) list" where
  "entries (JObj kvs) = kvs"
| "entries (JArr xs) = zip (map show_nat [0..<length xs]) xs"
| "entries _ = []"

subsection \<open>Conversions\<close>

text \<open>
  \<^verbatim>\<open>ToPrimitive\<close> of a parsed value raises exactly when the value is an object with an own
  property \<^verbatim>\<open>toString\<close> (no parsed value is callable, and the inherited \<^verbatim>\<open>valueOf\<close> returns
  the object itself), or an array one of whose elements raises when \<^verbatim>\<open>join\<close> converts it.
\<close>

fun coerce_throws :: "json \<Rightarrow> bool" where
  "coerce_throws (JObj kvs) = (''toString'' \<in> set (map fst kvs))"
| "coerce_throws (JArr xs) = (\<exists>x \<in> set xs. coerce_throws x)"
| "coerce_throws _ = False"

fun toStringJS :: "runtime \<Rightarrow> json \<Rightarrow> string" where
  "toStringJS rt JNull = ''null''"
| "toStringJS rt (JBool b) = (if b then ''true'' else ''false'')"
| "toStringJS rt (JNum n) = NumberToString rt n"
| "toStringJS rt (JStr s) = s"
| "toStringJS rt (JObj kvs) = ''[object Object]''"
| "toStringJS rt (JArr xs) =
     join '','' (map (\<lambda>x. if x = JNull then [] else toStringJS rt x) xs)"

fun toStringOpt :: "runtime \<Rightarrow> json option \<Rightarrow> string" where
  "toStringOpt rt None = ''undefined''"
| "toStringOpt rt (Some v) = toStringJS rt v"

fun toNumber :: "runtime \<Rightarrow> json option \<Rightarrow> jsnum" where
  "toNumber rt None = NaN"
| "toNumber rt (Some JNull) = Fin 0"
| "toNumber rt (Some (JBool b)) = Fin (if b then 1 else 0)"
| "toNumber rt (Some (JNum n)) = n"
| "toNumber rt (Some (JStr s)) = StringToNumber rt s"
| "toNumber rt (Some (JObj kvs)) = NaN"
| "toNumber rt (Some (JArr xs)) = StringToNumber rt (toStringJS rt (JArr xs))"

fun num_lt :: "jsnum \<Rightarrow> jsnum \<Rightarrow> bool" where
  "num_lt NaN y = False"
| "num_lt x NaN = False"
| "num_lt PosInf y = False"
| "num_lt x NegInf = False"
| "num_lt NegInf y = True"
| "num_lt x PosInf = True"
| "num_lt (Fin a) (Fin b) = (a < b)"

text \<open>\<^verbatim>\<open>v < c\<close> and \<^verbatim>\<open>v > c\<close> for a numeric literal \<open>c\<close>, once \<^verbatim>\<open>ToPrimitive\<close> has succeeded.\<close>

definition js_lt :: "runtime \<Rightarrow> json option \<Rightarrow> rat \<Rightarrow> bool" where
  "js_lt rt v c = num_lt (toNumber rt v) (Fin c)"

definition js_gt :: "runtime \<Rightarrow> json option \<Rightarrow> rat \<Rightarrow> bool" where
  "js_gt rt v c = num_lt (Fin c) (toNumber rt v)"

text \<open>\<^verbatim>\<open>v % 100 !== 0\<close>: the remainder of a finite double is exact; otherwise it is \<^verbatim>\<open>NaN\<close>.\<close>

definition js_mod100_nonzero :: "runtime \<Rightarrow> json option \<Rightarrow> bool" where
  "js_mod100_nonzero rt v =
     (case toNumber rt v of Fin a \<Rightarrow> a / 100 \<noteq> of_int \<lfloor>a / 100\<rfloor> | _ \<Rightarrow> True)"

section \<open>The result collector\<close>

record stats =
  totalTokens :: nat
  primitiveTokens :: nat
  semanticTokens :: nat
  missingType :: nat
  missingDescription :: nat
  invalidReferences :: nat

record results =
  pass :: "string list"
  warnings :: "string list"
  critical :: "string list"
  stats :: stats

definition initialResults :: results where
  "initialResults =
     \<lparr>pass = [], warnings = [], critical = [],
      stats = \<lparr>totalTokens = 0, primitiveTokens = 0, semanticTokens = 0,
               missingType = 0, missingDescription = 0, invalidReferences = 0\<rparr>\<rparr>"

definition addPass :: "string \<Rightarrow> results \<Rightarrow> results" where
  "addPass message r = r\<lparr>pass := pass r @ [message]\<rparr>"

definition addWarning :: "string \<Rightarrow> results \<Rightarrow> results" where
  "addWarning message r = r\<lparr>warnings := warnings r @ [message]\<rparr>"

definition addCritical :: "string \<Rightarrow> results \<Rightarrow> results" where
  "addCritical message r = r\<lparr>critical := critical r @ [message]\<rparr>"

section \<open>\<^verbatim>\<open>traverseTokens\<close>\<close>

text \<open>
  A callback reads and writes the variables of the checker that encloses it (the first
  component of the state) and the global collector (the second).  \<open>countToken\<close> is the
  three counter increments that follow the call of the callback.
\<close>

type_synonym 'l callback = "string list \<Rightarrow> json \<Rightarrow> string \<Rightarrow> 'l \<times> results \<Rightarrow> error + 'l \<times> results"

definition countToken :: "string \<Rightarrow> 'l \<times> results \<Rightarrow> 'l \<times> results" where
  "countToken layer st =
     (fst st,
      (snd st)\<lparr>stats := (stats (snd st))
         \<lparr>totalTokens := totalTokens (stats (snd st)) + 1,
          primitiveTokens :=
            (if layer = ''primitive'' then primitiveTokens (stats (snd st)) + 1
             else primitiveTokens (stats (snd st))),
          semanticTokens :=
            (if layer = ''semantic'' then semanticTokens (stats (snd st)) + 1
             else semanticTokens (stats (snd st)))\<rparr>\<rparr>)"

lemma size_list_snd_le:
  "size_list (\<lambda>p. size (snd p)) kvs \<le> size_list (size_prod (\<lambda>_. 0) size) kvs"
  by (induction kvs) auto

lemma size_list_zip_snd:
  "length ks = length xs \<Longrightarrow> size_list (\<lambda>p. size (snd p)) (zip ks xs) = size_list size xs"
  by (induction ks xs rule: list_induct2) auto

function (sequential) traverseEntries ::
  "(string \<times> json) list \<Rightarrow> 'l callback \<Rightarrow> string list \<Rightarrow> string \<Rightarrow> 'l \<times> results
     \<Rightarrow> error + 'l \<times> results" where
  "traverseEntries [] cb path layer st = Inr st"
| "traverseEntries ((key, value) # rest) cb path layer st =
     (if startsWith key ''$'' then traverseEntries rest cb path layer st
      else case value of
        JObj kvs \<Rightarrow>
          (if has_own ''$value'' (JObj kvs)
           then bind_e (cb (path @ [key]) (JObj kvs) layer st)
                  (\<lambda>st'. traverseEntries rest cb path layer (countToken layer st'))
           else bind_e (traverseEntries kvs cb (path @ [key]) layer st)
                  (\<lambda>st'. traverseEntries rest cb path layer st'))
      | JArr xs \<Rightarrow>
          bind_e (traverseEntries (zip (map show_nat [0..<length xs]) xs) cb (path @ [key]) layer st)
            (\<lambda>st'. traverseEntries rest cb path layer st')
      | _ \<Rightarrow> traverseEntries rest cb path layer st)"

  by pat_completeness auto

termination
proof (relation "measure (\<lambda>(kvs, cb, path, layer, st). size_list (\<lambda>p. size (snd p)) kvs)")
  fix key :: string and "value" :: json and rest :: "(string \<times> json) list" and kvs
  assume "value = JObj kvs"
  then show "((kvs, cb, path @ [key], layer, st), ((key, value) # rest, cb, path, layer, st))
      \<in> measure (\<lambda>(kvs, cb, path, layer, st). size_list (\<lambda>p. size (snd p)) kvs)"
    for cb :: "'l callback" and path layer st
    using size_list_snd_le [of kvs] by simp
next
  fix key :: string and "value" :: json and rest :: "(string \<times> json) list" and xs
  assume "value = JArr xs"
  then show "((zip (map show_nat [0..<length xs]) xs, cb, path @ [key], layer, st),
       ((key, value) # rest, cb, path, layer, st))
      \<in> measure (\<lambda>(kvs, cb, path, layer, st). size_list (\<lambda>p. size (snd p)) kvs)"
    for cb :: "'l callback" and path layer st
    by (simp add: size_list_zip_snd)
qed auto

text \<open>
  \<^verbatim>\<open>traverseTokens(obj, callback, path, layer)\<close>.  \<^verbatim>\<open>Object.entries\<close> raises on \<^verbatim>\<open>null\<close>; a
  number, a boolean and a string have no property whose value is an object.
\<close>

definition traverseTokens ::
  "json \<Rightarrow> 'l callback \<Rightarrow> string list \<Rightarrow> string \<Rightarrow> 'l \<times> results \<Rightarrow> error + 'l \<times> results" where
  "traverseTokens obj cb path layer st =
     (if obj = JNull then Inl CannotConvertToObject
      else traverseEntries (entries obj) cb path layer st)"

section \<open>Value validators\<close>

fun coerce_throws_opt :: "json option \<Rightarrow> bool" where
  "coerce_throws_opt None = False"
| "coerce_throws_opt (Some v) = coerce_throws v"

definition isHexDigit :: "char \<Rightarrow> bool" where
  "isHexDigit c = (c \<in> set ''0123456789ABCDEFabcdef'')"

text \<open>\<^verbatim>\<open>/^#[0-9A-Fa-f]{6}$/.test(s)\<close>\<close>

definition isHex6 :: "string \<Rightarrow> bool" where
  "isHex6 s = (case s of [] \<Rightarrow> False | c # cs \<Rightarrow> c = CHR ''#'' \<and> length cs = 6 \<and> list_all isHexDigit cs)"

text \<open>
  One of the three range tests on a colour component: \<^verbatim>\<open>if (h < lo || h > hi) addWarning(...)\<close>.
  The comparison converts the component first, which may raise.
\<close>

definition componentRange ::
  "runtime \<Rightarrow> json \<Rightarrow> rat \<Rightarrow> rat \<Rightarrow> string \<Rightarrow> results \<Rightarrow> error + results" where
  "componentRange rt c lo hi message r =
     (if coerce_throws c then Inl CannotConvertToPrimitive
      else if js_lt rt (Some c) lo \<or> js_gt rt (Some c) hi then Inr (addWarning message r)
      else Inr r)"

definition validateColorValue :: "runtime \<Rightarrow> json \<Rightarrow> string \<Rightarrow> results \<Rightarrow> error + bool \<times> results" where
  \<open>validateColorValue rt value tokenPath r =
     (case value of
        JStr s \<Rightarrow>
          Inr (False, addCritical (tokenPath @ '': Color uses string format ("'' @ s
                 @ ''"). Must use HSL object format per ADR 006'') r)
      | _ \<Rightarrow>
        if \<not> isObject value then
          Inr (False, addCritical (tokenPath @ '': Invalid color value format'') r)
        else
          let missing = filter (\<lambda>prop. \<not> has_own prop value)
                          [''colorSpace'', ''components'', ''alpha'', ''hex'']
          in
          if length missing > 0 then
            Inr (False, addCritical (tokenPath @ '': Missing required color properties: ''
                   @ join '', '' missing) r)
          else if getp value ''colorSpace'' \<noteq> Some (JStr ''hsl'') then
            (if coerce_throws_opt (getp value ''colorSpace'') then Inl CannotConvertToPrimitive
             else Inr (False, addCritical (tokenPath @ '': colorSpace must be "hsl", got "''
                   @ toStringOpt rt (getp value ''colorSpace'') @ ''"'') r))
          else
            (case getp value ''components'' of
               Some (JArr [h, s, l]) \<Rightarrow>
                 bind_e (componentRange rt h 0 360
                    (tokenPath @ '': Hue value '' @ toStringJS rt h
                       @ '' outside expected range 0-360'') r) (\<lambda>r1.
                 bind_e (componentRange rt s 0 100
                    (tokenPath @ '': Saturation value '' @ toStringJS rt s
                       @ '' outside expected range 0-100'') r1) (\<lambda>r2.
                 bind_e (componentRange rt l 0 100
                    (tokenPath @ '': Lightness value '' @ toStringJS rt l
                       @ '' outside expected range 0-100'') r2) (\<lambda>r3.
                 let alpha = getp value ''alpha''; hex = getp value ''hex'' in
                 if typeof alpha \<noteq> ''number'' \<or> js_lt rt alpha 0 \<or> js_gt rt alpha 1 then
                   (if coerce_throws_opt alpha then Inl CannotConvertToPrimitive
                    else Inr (False, addCritical (tokenPath
                           @ '': alpha must be number between 0 and 1, got ''
                           @ toStringOpt rt alpha) r3))
                 else if coerce_throws_opt hex then Inl CannotConvertToPrimitive
                 else if \<not> isHex6 (toStringOpt rt hex) then
                   Inr (False, addCritical (tokenPath
                          @ '': hex must be valid 6-digit hex color, got "''
                          @ toStringOpt rt hex @ ''"'') r3)
                 else Inr (True, r3))))
             | _ \<Rightarrow>
                 Inr (False, addCritical (tokenPath
                        @ '': components must be array of 3 numbers [H, S, L]'') r)))\<close>

definition validateDimensionValue :: "json \<Rightarrow> string \<Rightarrow> results \<Rightarrow> bool \<times> results" where
  \<open>validateDimensionValue value tokenPath r =
     (case value of
        JStr s \<Rightarrow>
          (False, addCritical (tokenPath @ '': Dimension uses string format ("'' @ s
             @ ''"). Must use {value, unit} object per ADR 005'') r)
      | _ \<Rightarrow>
        if \<not> isObject value then
          (False, addCritical (tokenPath @ '': Invalid dimension value format'') r)
        else if \<not> has_own ''value'' value \<or> \<not> has_own ''unit'' value then
          (False, addCritical (tokenPath
             @ '': Dimension must have both 'value' and 'unit' properties'') r)
        else if typeof (getp value ''value'') \<noteq> ''number'' then
          (False, addCritical (tokenPath @ '': Dimension 'value' must be a number, got ''
             @ typeof (getp value ''value'')) r)
        else
          (case getp value ''unit'' of
             Some (JStr u) \<Rightarrow>
               if u \<noteq> ''px'' \<and> u \<noteq> ''em'' then
                 (True, addWarning (tokenPath @ '': Unexpected unit "'' @ u
                    @ ''". Primitives should use "px" or "em"'') r)
               else (True, r)
           | other \<Rightarrow>
               (False, addCritical (tokenPath @ '': Dimension 'unit' must be a string, got ''
                  @ typeof other) r)))\<close>

definition validateTypographyValue :: "json \<Rightarrow> string \<Rightarrow> results \<Rightarrow> bool \<times> results" where
  "validateTypographyValue value tokenPath r =
     (if \<not> isObject value then
        (False, addCritical (tokenPath @ '': Typography value must be an object'') r)
      else
        let missing = filter (\<lambda>prop. \<not> has_own prop value)
                        [''fontFamily'', ''fontSize'', ''fontWeight'', ''lineHeight'']
        in
        if length missing > 0 then
          (True, addWarning (tokenPath @ '': Typography missing recommended properties: ''
             @ join '', '' missing) r)
        else (True, r))"

text \<open>
  The loop of \<^verbatim>\<open>validateShadowValue\<close> over the members of a shadow list.  \<^verbatim>\<open>prop in shadow\<close>
  raises when the member is not an object.
\<close>

fun validateShadows :: "json list \<Rightarrow> string \<Rightarrow> results \<Rightarrow> error + bool \<times> results" where
  "validateShadows [] tokenPath r = Inr (True, r)"
| "validateShadows (shadow # shadows) tokenPath r =
     (if \<not> isObject shadow then Inl InOperatorOnPrimitive
      else
        let missing = filter (\<lambda>prop. \<not> has_own prop shadow)
                        [''offsetX'', ''offsetY'', ''blur'', ''color'']
        in
        if length missing > 0 then
          Inr (False, addCritical (tokenPath @ '': Shadow missing required properties: ''
                 @ join '', '' missing) r)
        else validateShadows shadows tokenPath r)"

definition validateShadowValue :: "json \<Rightarrow> string \<Rightarrow> results \<Rightarrow> error + bool \<times> results" where
  "validateShadowValue value tokenPath r =
     (if \<not> isObject value then
        Inr (False, addCritical (tokenPath @ '': Shadow value must be an object'') r)
      else validateShadows (case value of JArr xs \<Rightarrow> xs | _ \<Rightarrow> [value]) tokenPath r)"

section \<open>Check 1: \<^verbatim>\<open>checkDTCGCompliance\<close>\<close>

definition incMissingType :: "results \<Rightarrow> results" where
  "incMissingType r = r\<lparr>stats := (stats r)\<lparr>missingType := missingType (stats r) + 1\<rparr>\<rparr>"

definition incMissingDescription :: "results \<Rightarrow> results" where
  "incMissingDescription r =
     r\<lparr>stats := (stats r)\<lparr>missingDescription := missingDescription (stats r) + 1\<rparr>\<rparr>"

definition incInvalidReferences :: "results \<Rightarrow> results" where
  "incInvalidReferences r =
     r\<lparr>stats := (stats r)\<lparr>invalidReferences := invalidReferences (stats r) + 1\<rparr>\<rparr>"

definition cbMissingType :: "unit callback" where
  "cbMissingType path token layer st =
     (let tokenPath = getTokenPath path in
      if \<not> truthy (getp token ''$type'') then
        Inr ((), incMissingType
                   (addCritical (tokenPath @ '': Missing required $type property'') (snd st)))
      else Inr st)"

text \<open>
  \<^verbatim>\<open>token.$description.length < 10\<close> for a truthy description: a string or an array has its
  length; an object has its own property \<^verbatim>\<open>length\<close> if any, which the comparison converts;
  a number or \<^verbatim>\<open>true\<close> has none, and \<^verbatim>\<open>undefined < 10\<close> is false.
\<close>

definition cbDescriptionPrimitive :: "runtime \<Rightarrow> unit callback" where
  "cbDescriptionPrimitive rt path token layer st =
     (let tokenPath = getTokenPath path; description = getp token ''$description'' in
      if \<not> truthy description then
        Inr ((), incMissingDescription
                   (addWarning (tokenPath @ '': Missing $description property'') (snd st)))
      else
        (case description of
           Some (JStr s) \<Rightarrow>
             if length s < 10 then
               Inr ((), addWarning (tokenPath @ '': Description too short ('' @ show_nat (length s)
                          @ '' chars). Should be descriptive.'') (snd st))
             else Inr st
         | Some (JArr xs) \<Rightarrow>
             if length xs < 10 then
               Inr ((), addWarning (tokenPath @ '': Description too short ('' @ show_nat (length xs)
                          @ '' chars). Should be descriptive.'') (snd st))
             else Inr st
         | Some (JObj kvs) \<Rightarrow>
             (case map_of kvs ''length'' of
                None \<Rightarrow> Inr st
              | Some len \<Rightarrow>
                  if coerce_throws len then Inl CannotConvertToPrimitive
                  else if js_lt rt (Some len) 10 then
                    Inr ((), addWarning (tokenPath @ '': Description too short (''
                               @ toStringJS rt len @ '' chars). Should be descriptive.'') (snd st))
                  else Inr st)
         | _ \<Rightarrow> Inr st))"

definition cbDescriptionSemantic :: "unit callback" where
  "cbDescriptionSemantic path token layer st =
     (let tokenPath = getTokenPath path in
      if \<not> truthy (getp token ''$description'') then
        Inr ((), incMissingDescription
                   (addWarning (tokenPath @ '': Missing $description property'') (snd st)))
      else Inr st)"

definition cbValueFormat :: "runtime \<Rightarrow> unit callback" where
  "cbValueFormat rt path token layer st =
     (let tokenPath = getTokenPath path;
          type = getp token ''$type'';
          value = (case getp token ''$value'' of Some v \<Rightarrow> v | None \<Rightarrow> JNull)
      in
      if type = Some (JStr ''color'') then
        bind_e (validateColorValue rt value tokenPath (snd st)) (\<lambda>res. Inr ((), snd res))
      else if type = Some (JStr ''dimension'') then
        Inr ((), snd (validateDimensionValue value tokenPath (snd st)))
      else if type = Some (JStr ''fontFamily'') then
        (if \<not> isArray value then
           Inr ((), addCritical (tokenPath @ '': fontFamily must be an array of font names'')
                      (snd st))
         else Inr st)
      else if type = Some (JStr ''number'') then
        (if typeof (getp token ''$value'') \<noteq> ''number'' then
           Inr ((), addCritical (tokenPath @ '': Type is 'number' but value is ''
                      @ typeof (getp token ''$value'')) (snd st))
         else Inr st)
      else Inr st)"

definition cbDepth :: "unit callback" where
  "cbDepth path token layer st =
     (if length path > 4 then
        Inr ((), addWarning (getTokenPath path @ '': Nesting depth '' @ show_nat (length path)
                   @ '' exceeds recommended max of 4'') (snd st))
      else Inr st)"

definition checkDTCGCompliance :: "runtime \<Rightarrow> json \<Rightarrow> json \<Rightarrow> results \<Rightarrow> error + results" where
  "checkDTCGCompliance rt primitiveTree semanticTree r =
     bind_e (traverseTokens primitiveTree cbMissingType [] ''primitive'' ((), r)) (\<lambda>st1.
     bind_e (traverseTokens semanticTree cbMissingType [] ''semantic'' st1) (\<lambda>st2.
     bind_e (traverseTokens primitiveTree (cbDescriptionPrimitive rt) [] ''primitive'' st2) (\<lambda>st3.
     bind_e (traverseTokens semanticTree cbDescriptionSemantic [] ''semantic'' st3) (\<lambda>st4.
     bind_e (traverseTokens primitiveTree (cbValueFormat rt) [] ''primitive'' st4) (\<lambda>st5.
     bind_e (traverseTokens primitiveTree cbDepth [] ''primitive'' st5) (\<lambda>st6.
     bind_e (traverseTokens semanticTree cbDepth [] ''semantic'' st6) (\<lambda>st7.
     let r7 = snd st7;
         r8 = (if missingType (stats r7) = 0
               then addPass ''All tokens have $type declarations'' r7 else r7);
         r9 = (if missingDescription (stats r8) = 0
               then addPass ''All tokens have $description'' r8 else r8)
     in Inr r9)))))))"

section \<open>Check 2: \<^verbatim>\<open>checkReferenceIntegrity\<close>\<close>

text \<open>A \<^verbatim>\<open>Set\<close> of strings, as the list of its members in insertion order.\<close>

definition setAdd :: "'a \<Rightarrow> 'a list \<Rightarrow> 'a list" where
  "setAdd x xs = (if x \<in> set xs then xs else xs @ [x])"

definition cbIndex :: "(string list) callback" where
  "cbIndex path token layer st = Inr (setAdd (getTokenPath path) (fst st), snd st)"

text \<open>
  The inner function \<^verbatim>\<open>checkReferences(value, tokenPath)\<close>; its state is the set
  \<^verbatim>\<open>allReferences\<close> and the collector.  It looks a reference up in the two indexes and
  never follows it.
\<close>

definition isReference :: "string \<Rightarrow> bool" where
  "isReference s = (startsWith s ''{'' \<and> endsWith s ''}'')"

definition checkReferenceString ::
  "string list \<Rightarrow> string list \<Rightarrow> string \<Rightarrow> string \<Rightarrow> string list \<times> results
     \<Rightarrow> string list \<times> results" where
  \<open>checkReferenceString primitiveIndex semanticIndex s tokenPath st =
     (let ref = butlast (tl s);
          allReferences = setAdd ref (fst st);
          r1 = (if ref \<notin> set primitiveIndex \<and> ref \<notin> set semanticIndex then
                  incInvalidReferences
                    (addCritical (tokenPath @ '': Reference "{'' @ ref
                       @ ''}" points to non-existent token'') (snd st))
                else snd st);
          r2 = (if startsWith ref ''primitive.'' \<or> startsWith ref ''semantic.'' then
                  addCritical (tokenPath @ '': Reference "{'' @ ref
                    @ ''}" includes layer prefix. Use "{color.primary.600}" not "{primitive.color.primary.600}"'') r1
                else r1)
      in (allReferences, r2))\<close>

text \<open>
  The recursion of \<^verbatim>\<open>checkReferences\<close> over \<^verbatim>\<open>Object.values(value)\<close>: \<open>onString\<close> is what
  the function does at a string, and nothing is done at \<^verbatim>\<open>null\<close>, a boolean or a number.
\<close>

fun walkValue :: "(string \<Rightarrow> 'a \<Rightarrow> 'a) \<Rightarrow> json \<Rightarrow> 'a \<Rightarrow> 'a"
and walkList :: "(string \<Rightarrow> 'a \<Rightarrow> 'a) \<Rightarrow> json list \<Rightarrow> 'a \<Rightarrow> 'a"
and walkEntries :: "(string \<Rightarrow> 'a \<Rightarrow> 'a) \<Rightarrow> (string \<times> json) list \<Rightarrow> 'a \<Rightarrow> 'a" where
  "walkValue onString (JStr s) st = onString s st"
| "walkValue onString (JArr xs) st = walkList onString xs st"
| "walkValue onString (JObj kvs) st = walkEntries onString kvs st"
| "walkValue onString JNull st = st"
| "walkValue onString (JBool b) st = st"
| "walkValue onString (JNum n) st = st"
| "walkList onString [] st = st"
| "walkList onString (v # vs) st = walkList onString vs (walkValue onString v st)"
| "walkEntries onString [] st = st"
| "walkEntries onString (kv # kvs) st = walkEntries onString kvs (walkValue onString (snd kv) st)"

definition checkReferences ::
  "string list \<Rightarrow> string list \<Rightarrow> json \<Rightarrow> string \<Rightarrow> string list \<times> results
     \<Rightarrow> string list \<times> results" where
  "checkReferences primitiveIndex semanticIndex value tokenPath st =
     walkValue (\<lambda>s st'. if isReference s
                         then checkReferenceString primitiveIndex semanticIndex s tokenPath st'
                         else st') value st"

definition cbReferences :: "string list \<Rightarrow> string list \<Rightarrow> (string list) callback" where
  "cbReferences primitiveIndex semanticIndex path token layer st =
     (let st1 = (case getp token ''$value'' of
                   Some v \<Rightarrow> checkReferences primitiveIndex semanticIndex v (getTokenPath path) st
                 | None \<Rightarrow> st);
          extensions = getp token ''$extensions''
      in
      if truthy extensions \<and> truthy (case extensions of Some e \<Rightarrow> getp e ''opacity'' | None \<Rightarrow> None)
      then
        (case extensions of
           Some e \<Rightarrow>
             (case getp e ''opacity'' of
                Some v \<Rightarrow> Inr (checkReferences primitiveIndex semanticIndex v (getTokenPath path) st1)
              | None \<Rightarrow> Inr st1)
         | None \<Rightarrow> Inr st1)
      else Inr st1)"

definition checkReferenceIntegrity :: "json \<Rightarrow> json \<Rightarrow> results \<Rightarrow> error + results" where
  "checkReferenceIntegrity primitiveTree semanticTree r =
     bind_e (traverseTokens primitiveTree cbIndex [] ''primitive'' ([], r)) (\<lambda>st1.
     bind_e (traverseTokens semanticTree cbIndex [] ''semantic'' ([], snd st1)) (\<lambda>st2.
     bind_e (traverseTokens semanticTree (cbReferences (fst st1) (fst st2)) [] ''semantic''
               ([], snd st2)) (\<lambda>st3.
     let r3 = snd st3;
         r4 = (if invalidReferences (stats r3) = 0
               then addPass (''All '' @ show_nat (length (fst st3)) @ '' token references are valid'') r3
               else r3)
     in Inr (addPass ''No obvious circular references detected (basic check)'' r4))))"

section \<open>Check 3: \<^verbatim>\<open>checkNamingConventions\<close>\<close>

definition cbLayerPrefix :: "nat callback" where
  "cbLayerPrefix path token layer st =
     (let tokenPath = getTokenPath path in
      if startsWith tokenPath ''primitive.'' \<or> startsWith tokenPath ''semantic.'' then
        Inr (fst st + 1,
             addCritical (tokenPath @ '': Token path includes layer prefix. Remove it per ADR 001.'')
               (snd st))
      else Inr st)"

definition states :: "string list" where
  "states = [''default'', ''hover'', ''pressed'', ''active'', ''focus'', ''disabled'',
             ''visited'', ''selected'']"

text \<open>\<^verbatim>\<open>path[path.length - 1]\<close>, which is \<^verbatim>\<open>undefined\<close> for an empty path.\<close>

definition lastSegment :: "string list \<Rightarrow> string option" where
  "lastSegment path = (if path = [] then None else Some (last path))"

definition cbStateLevels :: "nat callback" where
  \<open>cbStateLevels path token layer st =
     (case lastSegment path of
        Some seg \<Rightarrow>
          if seg \<in> set states \<and> length path \<noteq> 4 then
            Inr (fst st, addWarning (getTokenPath path @ '': Token with state "'' @ seg
                           @ ''" should have 4 levels'') (snd st))
          else Inr st
      | None \<Rightarrow> Inr st)\<close>

definition checkNamingConventions :: "json \<Rightarrow> json \<Rightarrow> results \<Rightarrow> error + results" where
  "checkNamingConventions primitiveTree semanticTree r =
     bind_e (traverseTokens primitiveTree cbLayerPrefix [] ''primitive'' (0, r)) (\<lambda>st1.
     bind_e (traverseTokens semanticTree cbLayerPrefix [] ''semantic'' st1) (\<lambda>st2.
     bind_e (traverseTokens semanticTree cbStateLevels [] ''semantic'' st2) (\<lambda>st3.
     if fst st3 = 0 then
       Inr (addPass ''Token naming follows {type}.{category}.{scale}.{state?} convention''
             (addPass ''No layer prefixes found in token paths'' (snd st3)))
     else Inr (snd st3))))"

section \<open>Check 4: \<^verbatim>\<open>checkValueFormatConsistency\<close>\<close>

definition tokenValue :: "json \<Rightarrow> json" where
  "tokenValue token = (case getp token ''$value'' of Some v \<Rightarrow> v | None \<Rightarrow> JNull)"

definition cbColorFormat :: "runtime \<Rightarrow> nat callback" where
  "cbColorFormat rt path token layer st =
     (if getp token ''$type'' = Some (JStr ''color'') then
        bind_e (validateColorValue rt (tokenValue token) (getTokenPath path) (snd st))
          (\<lambda>res. Inr (if \<not> fst res then fst st + 1 else fst st, snd res))
      else Inr st)"

definition cbDimensionFormat :: "nat callback" where
  "cbDimensionFormat path token layer st =
     (if getp token ''$type'' = Some (JStr ''dimension'') then
        (let res = validateDimensionValue (tokenValue token) (getTokenPath path) (snd st)
         in Inr (if \<not> fst res then fst st + 1 else fst st, snd res))
      else Inr st)"

definition cbTypographyFormat :: "nat callback" where
  "cbTypographyFormat path token layer st =
     (if getp token ''$type'' = Some (JStr ''typography'') then
        (let res = validateTypographyValue (tokenValue token) (getTokenPath path) (snd st)
         in Inr (if \<not> fst res then fst st + 1 else fst st, snd res))
      else Inr st)"

definition cbShadowFormat :: "nat callback" where
  "cbShadowFormat path token layer st =
     (if getp token ''$type'' = Some (JStr ''shadow'') then
        bind_e (validateShadowValue (tokenValue token) (getTokenPath path) (snd st))
          (\<lambda>res. Inr (if \<not> fst res then fst st + 1 else fst st, snd res))
      else Inr st)"

definition cbNumberFormat :: "runtime \<Rightarrow> nat callback" where
  "cbNumberFormat rt path token layer st =
     (let tokenPath = getTokenPath path; v = getp token ''$value'' in
      if getp token ''$type'' = Some (JStr ''number'') then
        (let st1 = (if typeof v \<noteq> ''number'' then
                      (fst st + 1,
                       addCritical (tokenPath @ '': Type is 'number' but value is not numeric'')
                         (snd st))
                    else st)
         in
         bind_e
           (if startsWith tokenPath ''fontWeight.'' then
              (if coerce_throws_opt v then Inl CannotConvertToPrimitive
               else if js_lt rt v 100 \<or> js_gt rt v 900 \<or> js_mod100_nonzero rt v then
                 Inr (fst st1, addWarning (tokenPath
                        @ '': fontWeight should be 100-900 in increments of 100, got ''
                        @ toStringOpt rt v) (snd st1))
               else Inr st1)
            else Inr st1) (\<lambda>st2.
         bind_e
           (if startsWith tokenPath ''lineHeight.'' then
              (if coerce_throws_opt v then Inl CannotConvertToPrimitive
               else if js_lt rt v (1 / 2) \<or> js_gt rt v 3 then
                 Inr (fst st2, addWarning (tokenPath @ '': lineHeight value '' @ toStringOpt rt v
                        @ '' seems unusual (expected 0.5-3)'') (snd st2))
               else Inr st2)
            else Inr st2) (\<lambda>st3.
         if startsWith tokenPath ''opacity.'' then
           (if coerce_throws_opt v then Inl CannotConvertToPrimitive
            else if js_lt rt v 0 \<or> js_gt rt v 1 then
              Inr (fst st3 + 1, addCritical (tokenPath @ '': opacity must be 0-1, got ''
                     @ toStringOpt rt v) (snd st3))
            else Inr st3)
         else Inr st3)))
      else Inr st)"

definition checkValueFormatConsistency :: "runtime \<Rightarrow> json \<Rightarrow> json \<Rightarrow> results \<Rightarrow> error + results" where
  "checkValueFormatConsistency rt primitiveTree semanticTree r =
     bind_e (traverseTokens primitiveTree (cbColorFormat rt) [] ''primitive'' (0, r)) (\<lambda>st1.
     bind_e (traverseTokens primitiveTree cbDimensionFormat [] ''primitive'' st1) (\<lambda>st2.
     bind_e (traverseTokens semanticTree cbTypographyFormat [] ''semantic'' st2) (\<lambda>st3.
     bind_e (traverseTokens semanticTree cbShadowFormat [] ''semantic'' st3) (\<lambda>st4.
     bind_e (traverseTokens primitiveTree (cbNumberFormat rt) [] ''primitive'' st4) (\<lambda>st5.
     if fst st5 = 0 then
       Inr (addPass ''All token values use correct format for their type'' (snd st5))
     else Inr (snd st5))))))"

section \<open>Check 5: \<^verbatim>\<open>checkCompleteness\<close>\<close>

definition essentialSemantics :: "string list" where
  "essentialSemantics =
     [''color.text.neutral.base.default'', ''color.background.neutral.base.default'',
      ''color.border.neutral.base.default'', ''typography.body.md.default'',
      ''typography.heading'']"

definition expectedScales :: "string list" where
  "expectedScales = [''100'', ''200'', ''300'', ''400'', ''500'', ''600'', ''700'', ''800'',
                     ''900'', ''1000'', ''1100'', ''1200'']"

definition scaleCategories :: "string list" where
  "scaleCategories = [''primary'', ''secondary'', ''neutral'', ''success'', ''warning'', ''error'']"

fun checkEssentials :: "string list \<Rightarrow> string list \<Rightarrow> results \<Rightarrow> results" where
  "checkEssentials semanticIndex [] r = r"
| "checkEssentials semanticIndex (essential # rest) r =
     checkEssentials semanticIndex rest
       (if \<not> list_ex (\<lambda>path. startsWith path essential) semanticIndex
        then addWarning (''Missing essential semantic token pattern: '' @ essential) r
        else r)"

text \<open>\<^verbatim>\<open>path[i]\<close>, which is \<^verbatim>\<open>undefined\<close> beyond the end of the path.\<close>

definition nthOpt :: "'a list \<Rightarrow> nat \<Rightarrow> 'a option" where
  "nthOpt xs i = (if i < length xs then Some (xs ! i) else None)"

definition cbFoundScales :: "string \<Rightarrow> (string option list) callback" where
  "cbFoundScales category path token layer st =
     (if nthOpt path 0 = Some ''color'' \<and> nthOpt path 1 = Some category
      then Inr (fst st @ [nthOpt path 2], snd st)
      else Inr st)"

fun checkScales :: "json \<Rightarrow> string list \<Rightarrow> results \<Rightarrow> error + results" where
  "checkScales primitiveTree [] r = Inr r"
| "checkScales primitiveTree (category # rest) r =
     bind_e (traverseTokens primitiveTree (cbFoundScales category) [] ''primitive'' ([], r)) (\<lambda>st.
     let missing = filter (\<lambda>s. Some s \<notin> set (fst st)) expectedScales in
     checkScales primitiveTree rest
       (if length missing > 0 then
          addWarning (''color.'' @ category @ '': Missing scale values: '' @ join '', '' missing)
            (snd st)
        else addPass (''color.'' @ category @ '': Complete 12-step scale (100-1200)'') (snd st)))"

definition statePatterns :: "string list" where
  "statePatterns = [''default'', ''hover'', ''pressed'']"

definition cbHasStates :: "bool callback" where
  "cbHasStates path token layer st =
     (case lastSegment path of
        Some seg \<Rightarrow> if seg \<in> set statePatterns then Inr (True, snd st) else Inr st
      | None \<Rightarrow> Inr st)"

definition checkCompleteness :: "json \<Rightarrow> json \<Rightarrow> results \<Rightarrow> error + results" where
  "checkCompleteness primitiveTree semanticTree r =
     bind_e (traverseTokens semanticTree cbIndex [] ''semantic'' ([], r)) (\<lambda>st1.
     bind_e (checkScales primitiveTree scaleCategories
               (checkEssentials (fst st1) essentialSemantics (snd st1))) (\<lambda>r2.
     bind_e (traverseTokens semanticTree cbHasStates [] ''semantic'' (False, r2)) (\<lambda>st3.
     let r4 = (if fst st3
               then addPass ''Interactive states (default, hover, pressed) are defined'' (snd st3)
               else addWarning ''No interactive states found. Consider adding hover/pressed states.''
                      (snd st3))
     in
     bind_e (traverseTokens primitiveTree cbIndex [] ''primitive'' ([], r4)) (\<lambda>st5.
     let r6 = (if ''color.white'' \<in> set (fst st5)
               then addPass ''color.white is defined'' (snd st5)
               else addWarning ''Missing color.white primitive token'' (snd st5));
         r7 = (if ''color.black'' \<in> set (fst st5)
               then addPass ''color.black is defined'' r6
               else addWarning ''Missing color.black primitive token'' r6)
     in Inr r7))))"

section \<open>Check 6: \<^verbatim>\<open>checkQuality\<close>\<close>

definition vagueWords :: "string list" where
  "vagueWords = [''color'', ''token'', ''value'', ''style'']"

text \<open>
  The first callback calls \<^verbatim>\<open>token.$description.toLowerCase()\<close> on every truthy description;
  only a string has that method.
\<close>

definition cbUnclearDescription :: "nat callback" where
  \<open>cbUnclearDescription path token layer st =
     (let description = getp token ''$description'' in
      if truthy description then
        (case description of
           Some (JStr d) \<Rightarrow>
             let desc = toLowerCase d;
                 hasVague = list_ex (\<lambda>word. desc = word \<or> startsWith desc (word @ '' '')
                                        \<or> startsWith desc (word @ ''.'')) vagueWords
             in
             if hasVague \<and> length desc < 20 then
               Inr (fst st + 1,
                    addWarning (getTokenPath path @ '': Description may be too generic: "'' @ d
                      @ ''"'') (snd st))
             else Inr st
         | _ \<Rightarrow> Inl NotAFunction)
      else Inr st)\<close>

text \<open>
  \<^verbatim>\<open>typesByCategory\<close> is a plain object used as a dictionary from \<^verbatim>\<open>path[0]\<close> to a \<^verbatim>\<open>Set\<close> of
  \<^verbatim>\<open>$type\<close> values.  Reading a key that \<^verbatim>\<open>Object.prototype\<close> defines gives the inherited,
  truthy value, whose \<^verbatim>\<open>add\<close> is not a function.  In a \<^verbatim>\<open>Set\<close>, primitive values are equal
  when they have the same value and every object is equal to itself only; each token
  carries its own \<^verbatim>\<open>$type\<close> object.
\<close>

definition objectPrototypeKeys :: "string list" where
  "objectPrototypeKeys =
     [''constructor'', ''__defineGetter__'', ''__defineSetter__'', ''hasOwnProperty'',
      ''__lookupGetter__'', ''__lookupSetter__'', ''isPrototypeOf'', ''propertyIsEnumerable'',
      ''toString'', ''valueOf'', ''__proto__'', ''toLocaleString'']"

definition typeSetAdd :: "json option \<Rightarrow> json option list \<Rightarrow> json option list" where
  "typeSetAdd t ts =
     (case t of
        Some (JArr xs) \<Rightarrow> ts @ [t]
      | Some (JObj kvs) \<Rightarrow> ts @ [t]
      | _ \<Rightarrow> setAdd t ts)"

type_synonym typesByCategory = "(string \<times> json option list) list"

definition cbTypesByCategory :: "typesByCategory callback" where
  "cbTypesByCategory path token layer st =
     (let category = (case nthOpt path 0 of Some c \<Rightarrow> c | None \<Rightarrow> ''undefined'') in
      if category \<in> set objectPrototypeKeys then Inl NotAFunction
      else
        let tbc = (if map_of (fst st) category = None then fst st @ [(category, [])] else fst st)
        in Inr (map (\<lambda>entry. if fst entry = category
                              then (fst entry, typeSetAdd (getp token ''$type'') (snd entry))
                              else entry) tbc,
                snd st))"

text \<open>
  \<^verbatim>\<open>Object.entries\<close> of the dictionary: the keys that are array indexes (canonical decimal
  numerals below \<open>2^32 - 1\<close>) in ascending numeric order, then the other keys in the order
  of their creation.
\<close>

definition isDigit :: "char \<Rightarrow> bool" where
  "isDigit c = (c \<in> set ''0123456789'')"

definition readNat :: "string \<Rightarrow> nat" where
  "readNat s = foldl (\<lambda>n c. 10 * n + (of_char c - 48)) 0 s"

definition isArrayIndex :: "string \<Rightarrow> bool" where
  "isArrayIndex s =
     (s \<noteq> [] \<and> list_all isDigit s \<and> (s = ''0'' \<or> hd s \<noteq> CHR ''0'') \<and> length s \<le> 10
      \<and> readNat s < 4294967295)"

definition objectEntriesOrder :: "(string \<times> 'a) list \<Rightarrow> (string \<times> 'a) list" where
  "objectEntriesOrder kvs =
     sort_key (\<lambda>kv. readNat (fst kv)) (filter (\<lambda>kv. isArrayIndex (fst kv)) kvs)
       @ filter (\<lambda>kv. \<not> isArrayIndex (fst kv)) kvs"

text \<open>\<^verbatim>\<open>Array.from(types).join(', ')\<close>: \<^verbatim>\<open>undefined\<close> and \<^verbatim>\<open>null\<close> give the empty string.\<close>

definition joinElement :: "runtime \<Rightarrow> json option \<Rightarrow> string" where
  "joinElement rt t = (case t of None \<Rightarrow> [] | Some JNull \<Rightarrow> [] | Some v \<Rightarrow> toStringJS rt v)"

fun checkTypeConsistency ::
  "runtime \<Rightarrow> typesByCategory \<Rightarrow> nat \<times> results \<Rightarrow> error + nat \<times> results" where
  "checkTypeConsistency rt [] st = Inr st"
| \<open>checkTypeConsistency rt (entry # rest) st =
     (if length (snd entry) > 1 then
        (if list_ex coerce_throws_opt (snd entry) then Inl CannotConvertToPrimitive
         else checkTypeConsistency rt rest
                (fst st + 1,
                 addWarning (''Category "'' @ fst entry @ ''" has multiple types: ''
                   @ join '', '' (map (joinElement rt) (snd entry)) @ ''. Should be consistent.'')
                   (snd st)))
      else checkTypeConsistency rt rest st)\<close>

definition cbAccessibility :: "bool callback" where
  "cbAccessibility path token layer st =
     (let extensions = getp token ''$extensions'' in
      if truthy extensions \<and> truthy (case extensions of Some e \<Rightarrow> getp e ''contrast'' | None \<Rightarrow> None)
      then Inr (True, snd st)
      else Inr st)"

definition checkQuality :: "runtime \<Rightarrow> json \<Rightarrow> json \<Rightarrow> results \<Rightarrow> error + results" where
  "checkQuality rt primitiveTree semanticTree r =
     bind_e (traverseTokens primitiveTree cbUnclearDescription [] ''primitive'' (0, r)) (\<lambda>st1.
     bind_e (traverseTokens primitiveTree cbTypesByCategory [] ''primitive'' ([], snd st1)) (\<lambda>st2.
     bind_e (checkTypeConsistency rt (objectEntriesOrder (fst st2)) (0, snd st2)) (\<lambda>st3.
     let r4 = (if fst st3 = 0
               then addPass ''All token categories use consistent $type declarations'' (snd st3)
               else snd st3);
         r5 = (if fst st1 = 0
               then addPass ''All descriptions are clear and specific'' r4
               else r4)
     in
     bind_e (traverseTokens semanticTree cbAccessibility [] ''semantic'' (False, r5)) (\<lambda>st6.
     if fst st6 then
       Inr (addPass ''Accessibility information (contrast ratios) included in $extensions''
              (snd st6))
     else
       Inr (addWarning
              ''Consider adding contrast ratio information to text color tokens for WCAG compliance''
              (snd st6))))))"

section \<open>\<^verbatim>\<open>printResults\<close> and the run\<close>

subsection \<open>Double-precision arithmetic of the score\<close>

text \<open>
  \<^verbatim>\<open>(results.pass.length / totalChecks) * 100\<close> is computed on doubles: the quotient is
  rounded to the nearest double and so is the product.  \<open>fl x\<close> is the double nearest to
  the rational \<open>x\<close> (53 significant bits, ties to even, gradual underflow), for \<open>x\<close> below
  the overflow threshold; \<open>ilog2 x\<close> is the binary exponent of \<open>x > 0\<close>.
  \<^verbatim>\<open>Math.round\<close> rounds to the nearest integer, a tie towards \<open>+\<infinity>\<close>.
\<close>

fun bitlen_nat :: "nat \<Rightarrow> nat" where
  "bitlen_nat n = (if n = 0 then 0 else Suc (bitlen_nat (n div 2)))"

declare bitlen_nat.simps [simp del]

definition ilog2 :: "rat \<Rightarrow> int" where
  "ilog2 x =
     (let d = int (bitlen_nat (nat (fst (quotient_of x)))) - int (bitlen_nat (nat (snd (quotient_of x))))
      in if 2 powi d \<le> x then d else d - 1)"

definition roundHalfEven :: "rat \<Rightarrow> int" where
  "roundHalfEven m =
     (let n = \<lfloor>m\<rfloor>; r = m - of_int n in
      if r < 1 / 2 then n else if r > 1 / 2 then n + 1 else if even n then n else n + 1)"

definition fl :: "rat \<Rightarrow> rat" where
  "fl x =
     (if x = 0 then 0
      else let q = max (ilog2 \<bar>x\<bar>) (- 1022) - 52
           in sgn x * of_int (roundHalfEven (\<bar>x\<bar> / 2 powi q)) * 2 powi q)"

definition Math_round :: "rat \<Rightarrow> int" where
  "Math_round x = \<lfloor>x + 1 / 2\<rfloor>"

definition computeScore :: "results \<Rightarrow> int" where
  "computeScore r =
     (let totalIssues = length (critical r) + length (warnings r);
          totalChecks = length (pass r) + totalIssues
      in if totalChecks > 0
         then Math_round (fl (fl (of_nat (length (pass r)) / of_nat totalChecks) * 100))
         else 0)"

datatype verdict = ProductionReady | ProductionReadyWithWarnings | NotProductionReady

text \<open>
  What \<^verbatim>\<open>printResults\<close> prints after the three lists: the statistics block, the score with
  its label, the verdict; and the exit code of the process.
\<close>

record report =
  finalResults :: results
  score :: int
  scoreLabel :: string
  readiness :: verdict
  exitCode :: nat

definition printResults :: "results \<Rightarrow> report" where
  "printResults r =
     (let s = computeScore r in
      \<lparr>finalResults = r,
       score = s,
       scoreLabel = (if s < 70 then ''NEEDS WORK'' else if s < 85 then ''GOOD'' else ''EXCELLENT''),
       readiness =
         (if length (critical r) = 0 \<and> length (warnings r) = 0 then ProductionReady
          else if length (critical r) = 0 then ProductionReadyWithWarnings
          else NotProductionReady),
       exitCode = (if length (critical r) > 0 then 1 else 0)\<rparr>)"

text \<open>The six checks in the order of the script, then the report.\<close>

definition runChecks :: "runtime \<Rightarrow> json \<Rightarrow> json \<Rightarrow> error + results" where
  "runChecks rt primitiveTree semanticTree =
     bind_e (checkDTCGCompliance rt primitiveTree semanticTree initialResults) (\<lambda>r1.
     bind_e (checkReferenceIntegrity primitiveTree semanticTree r1) (\<lambda>r2.
     bind_e (checkNamingConventions primitiveTree semanticTree r2) (\<lambda>r3.
     bind_e (checkValueFormatConsistency rt primitiveTree semanticTree r3) (\<lambda>r4.
     bind_e (checkCompleteness primitiveTree semanticTree r4) (\<lambda>r5.
     checkQuality rt primitiveTree semanticTree r5)))))"

definition runAudit :: "runtime \<Rightarrow> json \<Rightarrow> json \<Rightarrow> error + report" where
  "runAudit rt primitiveTree semanticTree =
     bind_e (runChecks rt primitiveTree semanticTree) (\<lambda>r. Inr (printResults r))"

section \<open>The traversal as a list of visits\<close>

text \<open>
  \<open>tokensOf kvs path\<close> lists, in order, the pairs (path, token) on which
  \<open>traverseEntries kvs cb path\<close> calls its callback; \<open>visitAll\<close> performs the calls, each
  followed by the counter increments.
\<close>

function (sequential) tokensOf :: "(string \<times> json) list \<Rightarrow> string list \<Rightarrow> (string list \<times> json) list" where
  "tokensOf [] path = []"
| "tokensOf ((key, value) # rest) path =
     (if startsWith key ''$'' then tokensOf rest path
      else case value of
        JObj kvs \<Rightarrow>
          (if has_own ''$value'' (JObj kvs) then (path @ [key], JObj kvs) # tokensOf rest path
           else tokensOf kvs (path @ [key]) @ tokensOf rest path)
      | JArr xs \<Rightarrow>
          tokensOf (zip (map show_nat [0..<length xs]) xs) (path @ [key]) @ tokensOf rest path
      | _ \<Rightarrow> tokensOf rest path)"
  by pat_completeness auto

termination
proof (relation "measure (\<lambda>(kvs, path). size_list (\<lambda>p. size (snd p)) kvs)")
  fix key :: string and "value" :: json and rest :: "(string \<times> json) list" and kvs
  assume "value = JObj kvs"
  then show "((kvs, path @ [key]), ((key, value) # rest, path))
      \<in> measure (\<lambda>(kvs, path). size_list (\<lambda>p. size (snd p)) kvs)" for path
    using size_list_snd_le [of kvs] by simp
next
  fix key :: string and "value" :: json and rest :: "(string \<times> json) list" and xs
  assume "value = JArr xs"
  then show "((zip (map show_nat [0..<length xs]) xs, path @ [key]), ((key, value) # rest, path))
      \<in> measure (\<lambda>(kvs, path). size_list (\<lambda>p. size (snd p)) kvs)" for path
    by (simp add: size_list_zip_snd)
qed auto

fun visitAll ::
  "'l callback \<Rightarrow> string \<Rightarrow> (string list \<times> json) list \<Rightarrow> 'l \<times> results \<Rightarrow> error + 'l \<times> results" where
  "visitAll cb layer [] st = Inr st"
| "visitAll cb layer (pt # rest) st =
     bind_e (cb (fst pt) (snd pt) layer st) (\<lambda>st'. visitAll cb layer rest (countToken layer st'))"

definition tokens :: "json \<Rightarrow> (string list \<times> json) list" where
  "tokens tree = tokensOf (entries tree) []"

lemma bind_e_Inr [simp]: "bind_e (Inr x) f = f x"
  by (simp add: bind_e_def)

lemma bind_e_Inl [simp]: "bind_e (Inl e) f = Inl e"
  by (simp add: bind_e_def)

lemma bind_e_assoc: "bind_e (bind_e m f) g = bind_e m (\<lambda>x. bind_e (f x) g)"
  by (cases m) simp_all

lemma bind_e_eq_Inr:
  "bind_e m f = Inr y \<longleftrightarrow> (\<exists>x. m = Inr x \<and> f x = Inr y)"
  by (cases m) simp_all

lemma visitAll_append:
  "visitAll cb layer (xs @ ys) st = bind_e (visitAll cb layer xs st) (visitAll cb layer ys)"
proof (induction xs arbitrary: st)
  case Nil
  show ?case by simp
next
  case (Cons pt xs)
  show ?case
    by (cases "cb (fst pt) (snd pt) layer st") (simp_all add: Cons.IH)
qed

lemma traverseEntries_visitAll:
  "traverseEntries kvs cb path layer st = visitAll cb layer (tokensOf kvs path) st"
proof (induction kvs cb path layer st rule: traverseEntries.induct)
  case (1 cb path layer st)
  show ?case by simp
next
  case (2 key "value" rest cb path layer st)
  show ?case
  proof (cases "startsWith key ''$''")
    case True
    with 2 show ?thesis by simp
  next
    case notMeta: False
    show ?thesis
    proof (cases "value")
      case (JObj kvs)
      show ?thesis
      proof (cases "has_own ''$value'' (JObj kvs)")
        case True
        have "traverseEntries rest cb path layer (countToken layer st')
              = visitAll cb layer (tokensOf rest path) (countToken layer st')" for st'
          using "2.IH" notMeta JObj True by simp
        with notMeta JObj True show ?thesis by simp
      next
        case False
        have inner: "traverseEntries kvs cb (path @ [key]) layer st
              = visitAll cb layer (tokensOf kvs (path @ [key])) st"
          using "2.IH" notMeta JObj False by simp
        have outer: "traverseEntries rest cb path layer st'
              = visitAll cb layer (tokensOf rest path) st'" for st'
          using "2.IH" notMeta JObj False by simp
        then have "traverseEntries rest cb path layer = visitAll cb layer (tokensOf rest path)"
          by (intro ext)
        with notMeta JObj False show ?thesis
          by (simp add: inner visitAll_append)
      qed
    next
      case (JArr xs)
      have inner: "traverseEntries (zip (map show_nat [0..<length xs]) xs) cb (path @ [key]) layer st
            = visitAll cb layer (tokensOf (zip (map show_nat [0..<length xs]) xs) (path @ [key])) st"
        using "2.IH" notMeta JArr by simp
      have outer: "traverseEntries rest cb path layer st'
            = visitAll cb layer (tokensOf rest path) st'" for st'
        using "2.IH" notMeta JArr by simp
      then have "traverseEntries rest cb path layer = visitAll cb layer (tokensOf rest path)"
        by (intro ext)
      with notMeta JArr show ?thesis
        by (simp add: inner visitAll_append)
    qed (use notMeta 2 in simp_all)
  qed
qed

lemma traverseTokens_visitAll:
  "tree \<noteq> JNull \<Longrightarrow> traverseTokens tree cb [] layer st = visitAll cb layer (tokens tree) st"
  by (simp add: traverseTokens_def tokens_def traverseEntries_visitAll)

section \<open>The score of an empty collector\<close>

text \<open>
  Claim C9.  If the three buckets \<^verbatim>\<open>pass\<close>, \<^verbatim>\<open>warnings\<close> and \<^verbatim>\<open>critical\<close> are all empty,
  \<^verbatim>\<open>totalChecks\<close> is zero, the guard \<^verbatim>\<open>totalChecks > 0\<close> skips the division and
  \<^verbatim>\<open>printResults\<close> reports the score 0.
\<close>

theorem score_no_findings:
  assumes "pass r = []" and "warnings r = []" and "critical r = []"
  shows "score (printResults r) = 0"
  using assms by (simp add: printResults_def computeScore_def)

theorem score_no_findings_witness:
  "pass initialResults = [] \<and> warnings initialResults = [] \<and> critical initialResults = []
   \<and> score (printResults initialResults) = 0"
  using score_no_findings [of initialResults] by (simp add: initialResults_def)

section \<open>Which nodes the traversal visits\<close>

text \<open>
  A token node is an object with an own property \<^verbatim>\<open>$value\<close>; a group node is any other object
  or array.  \<open>nodesAt kvs path\<close> lists the nodes reached from an object with the properties
  \<open>kvs\<close> by following the keys of \<open>path\<close> through nodes of any kind; \<open>nodesViaGroups\<close>
  follows them through group nodes only.
\<close>

definition isTokenNode :: "json \<Rightarrow> bool" where
  "isTokenNode v = (isObject v \<and> has_own ''$value'' v)"

definition isGroupNode :: "json \<Rightarrow> bool" where
  "isGroupNode v = (isObject v \<and> \<not> has_own ''$value'' v)"

fun nodesAt :: "(string \<times> json) list \<Rightarrow> string list \<Rightarrow> json list" where
  "nodesAt kvs [] = []"
| "nodesAt kvs [k] = map snd (filter (\<lambda>kv. fst kv = k) kvs)"
| "nodesAt kvs (k # k' # ks) =
     concat (map (\<lambda>kv. nodesAt (entries (snd kv)) (k' # ks)) (filter (\<lambda>kv. fst kv = k) kvs))"

fun nodesViaGroups :: "(string \<times> json) list \<Rightarrow> string list \<Rightarrow> json list" where
  "nodesViaGroups kvs [] = []"
| "nodesViaGroups kvs [k] = map snd (filter (\<lambda>kv. fst kv = k) kvs)"
| "nodesViaGroups kvs (k # k' # ks) =
     concat (map (\<lambda>kv. nodesViaGroups (entries (snd kv)) (k' # ks))
               (filter (\<lambda>kv. fst kv = k \<and> isGroupNode (snd kv)) kvs))"

text \<open>
  The nodes named by the sentence ``the object nodes containing the key \<^verbatim>\<open>$value\<close> that are
  reachable through keys not starting with \<^verbatim>\<open>$\<close>'', and the nodes among them that are
  reached through group nodes only.
\<close>

definition noMetaKey :: "string list \<Rightarrow> bool" where
  "noMetaKey path = list_all (\<lambda>k. \<not> startsWith k ''$'') path"

definition reachableIn :: "(string \<times> json) list \<Rightarrow> (string list \<times> json) set" where
  "reachableIn kvs =
     {(path, node). path \<noteq> [] \<and> noMetaKey path \<and> node \<in> set (nodesAt kvs path) \<and> isTokenNode node}"

definition visitedIn :: "(string \<times> json) list \<Rightarrow> (string list \<times> json) set" where
  "visitedIn kvs =
     {(path, node). path \<noteq> [] \<and> noMetaKey path \<and> node \<in> set (nodesViaGroups kvs path)
        \<and> isTokenNode node}"

definition reachableTokens :: "json \<Rightarrow> (string list \<times> json) set" where
  "reachableTokens tree = reachableIn (entries tree)"

definition visitedTokens :: "json \<Rightarrow> (string list \<times> json) set" where
  "visitedTokens tree = visitedIn (entries tree)"

lemma nodesViaGroups_Nil [simp]: "nodesViaGroups [] path = []"
  by (cases path rule: remdups_adj.cases) simp_all

lemma nodesViaGroups_Cons:
  "nodesViaGroups ((key, v) # rest) path =
     (case path of
        [] \<Rightarrow> []
      | [k] \<Rightarrow> (if key = k then [v] else [])
      | k # k' # ks \<Rightarrow>
          (if key = k \<and> isGroupNode v then nodesViaGroups (entries v) (k' # ks) else []))
     @ nodesViaGroups rest path"
  by (cases path rule: remdups_adj.cases) simp_all

lemma visitedIn_Nil [simp]: "visitedIn [] = {}"
  by (simp add: visitedIn_def)

lemma visitedIn_Cons:
  "visitedIn ((key, v) # rest) =
     (if startsWith key ''$'' then {}
      else (if isTokenNode v then {([key], v)} else {})
           \<union> (if isGroupNode v then (\<lambda>pn. (key # fst pn, snd pn)) ` visitedIn (entries v) else {}))
     \<union> visitedIn rest"
proof (intro set_eqI iffI)
  fix x :: "string list \<times> json"
  obtain path node where x: "x = (path, node)" by (cases x)
  assume "x \<in> visitedIn ((key, v) # rest)"
  then have ne: "path \<noteq> []" and nm: "noMetaKey path" and tok: "isTokenNode node"
    and mem: "node \<in> set (nodesViaGroups ((key, v) # rest) path)"
    by (simp_all add: visitedIn_def x)
  show "x \<in> (if startsWith key ''$'' then {}
      else (if isTokenNode v then {([key], v)} else {})
           \<union> (if isGroupNode v then (\<lambda>pn. (key # fst pn, snd pn)) ` visitedIn (entries v) else {}))
     \<union> visitedIn rest"
  proof (cases "node \<in> set (nodesViaGroups rest path)")
    case True
    with ne nm tok show ?thesis by (simp add: visitedIn_def x)
  next
    case False
    show ?thesis
    proof (cases path rule: remdups_adj.cases)
      case 1
      with ne show ?thesis by simp
    next
      case (2 k)
      with mem False have "key = k" "node = v"
        by (auto simp: nodesViaGroups_Cons split: if_splits)
      with 2 nm tok show ?thesis by (simp add: x noMetaKey_def)
    next
      case (3 k k' ks)
      with mem False have k: "key = k" and g: "isGroupNode v"
        and inner: "node \<in> set (nodesViaGroups (entries v) (k' # ks))"
        by (auto simp: nodesViaGroups_Cons split: if_splits)
      from 3 nm have "noMetaKey (k' # ks)" "\<not> startsWith k ''$''"
        by (simp_all add: noMetaKey_def)
      with inner tok have "(k' # ks, node) \<in> visitedIn (entries v)"
        by (simp add: visitedIn_def)
      then have "(key # k' # ks, node) \<in> (\<lambda>pn. (key # fst pn, snd pn)) ` visitedIn (entries v)"
        by force
      with 3 k g \<open>\<not> startsWith k ''$''\<close> show ?thesis by (simp add: x)
    qed
  qed
next
  fix x :: "string list \<times> json"
  obtain path node where x: "x = (path, node)" by (cases x)
  assume a: "x \<in> (if startsWith key ''$'' then {}
      else (if isTokenNode v then {([key], v)} else {})
           \<union> (if isGroupNode v then (\<lambda>pn. (key # fst pn, snd pn)) ` visitedIn (entries v) else {}))
     \<union> visitedIn rest"
  show "x \<in> visitedIn ((key, v) # rest)"
  proof (cases "x \<in> visitedIn rest")
    case True
    then show ?thesis
      by (auto simp: visitedIn_def x nodesViaGroups_Cons)
  next
    case False
    with a have nd: "\<not> startsWith key ''$''"
      and cases: "(isTokenNode v \<and> x = ([key], v))
        \<or> (isGroupNode v \<and> x \<in> (\<lambda>pn. (key # fst pn, snd pn)) ` visitedIn (entries v))"
      by (auto split: if_splits)
    from cases show ?thesis
    proof
      assume "isTokenNode v \<and> x = ([key], v)"
      with nd show ?thesis
        by (simp add: visitedIn_def noMetaKey_def nodesViaGroups_Cons)
    next
      assume g: "isGroupNode v \<and> x \<in> (\<lambda>pn. (key # fst pn, snd pn)) ` visitedIn (entries v)"
      then obtain p where p: "path = key # p" "(p, node) \<in> visitedIn (entries v)"
        by (auto simp: x)
      then obtain k' ks where ks: "p = k' # ks"
        by (cases p) (auto simp: visitedIn_def)
      from p ks g nd show ?thesis
        by (auto simp: visitedIn_def x noMetaKey_def nodesViaGroups_Cons)
    qed
  qed
qed

lemma isTokenNode_JObj [simp]: "isTokenNode (JObj kvs) = has_own ''$value'' (JObj kvs)"
  by (simp add: isTokenNode_def)

lemma isGroupNode_JObj [simp]: "isGroupNode (JObj kvs) = (\<not> has_own ''$value'' (JObj kvs))"
  by (simp add: isGroupNode_def)

lemma isGroupNode_JArr [simp]: "isGroupNode (JArr xs)" "\<not> isTokenNode (JArr xs)"
  by (simp_all add: isGroupNode_def isTokenNode_def)

lemma not_node_simps [simp]:
  "\<not> isTokenNode JNull" "\<not> isTokenNode (JBool b)" "\<not> isTokenNode (JNum n)" "\<not> isTokenNode (JStr s)"
  "\<not> isGroupNode JNull" "\<not> isGroupNode (JBool b)" "\<not> isGroupNode (JNum n)" "\<not> isGroupNode (JStr s)"
  by (simp_all add: isGroupNode_def isTokenNode_def)

lemma set_tokensOf:
  "set (tokensOf kvs pre) = (\<lambda>pn. (pre @ fst pn, snd pn)) ` visitedIn kvs"
proof (induction kvs pre rule: tokensOf.induct)
  case (1 path)
  show ?case by simp
next
  case (2 key "value" rest path)
  show ?case
  proof (cases "startsWith key ''$''")
    case True
    with 2 show ?thesis by (simp add: visitedIn_Cons)
  next
    case notMeta: False
    have shift: "(\<lambda>pn. ((path @ [key]) @ fst pn, snd pn)) ` S
        = (\<lambda>pn. (path @ fst pn, snd pn)) ` (\<lambda>pn. (key # fst pn, snd pn)) ` S"
      for S :: "(string list \<times> json) set"
      by (simp add: image_image)
    show ?thesis
    proof (cases "value")
      case (JObj kvs)
      with 2 notMeta show ?thesis
        by (cases "has_own ''$value'' (JObj kvs)")
           (simp_all add: visitedIn_Cons image_Un shift del: has_own.simps append_assoc)
    next
      case (JArr xs)
      with 2 notMeta show ?thesis
        by (simp add: visitedIn_Cons image_Un shift del: append_assoc)
    qed (use 2 notMeta in \<open>simp_all add: visitedIn_Cons\<close>)
  qed
qed

lemma nodesViaGroups_subset: "set (nodesViaGroups kvs path) \<subseteq> set (nodesAt kvs path)"
proof (induction kvs path rule: nodesAt.induct)
  case (3 kvs k k' ks)
  then show ?case by fastforce
qed simp_all

lemma visitedIn_subset: "visitedIn kvs \<subseteq> reachableIn kvs"
  using nodesViaGroups_subset by (auto simp: visitedIn_def reachableIn_def)

lemma countToken_simps [simp]:
  "fst (countToken layer st) = fst st"
  "pass (snd (countToken layer st)) = pass (snd st)"
  "warnings (snd (countToken layer st)) = warnings (snd st)"
  "critical (snd (countToken layer st)) = critical (snd st)"
  "missingType (stats (snd (countToken layer st))) = missingType (stats (snd st))"
  "missingDescription (stats (snd (countToken layer st))) = missingDescription (stats (snd st))"
  "invalidReferences (stats (snd (countToken layer st))) = invalidReferences (stats (snd st))"
  by (simp_all add: countToken_def)

definition nestedTree :: json where
  "nestedTree =
     JObj [(''a'', JObj [(''$value'', JNum (Fin 1)),
                         (''b'', JObj [(''$value'', JNum (Fin 2))])])]"

lemma tokens_nestedTree:
  "tokens nestedTree =
     [([''a''], JObj [(''$value'', JNum (Fin 1)), (''b'', JObj [(''$value'', JNum (Fin 2))])])]"
  by (simp add: tokens_def nestedTree_def startsWith_def)

text \<open>
  Claim C10, as amended.  For every tree and every callback, \<^verbatim>\<open>traverseTokens\<close> does nothing
  but call the callback, in order, on the pairs of \<open>tokens tree\<close>, each call followed by the
  counter increments.  These pairs are exactly the token nodes (objects with an own key
  \<^verbatim>\<open>$value\<close>) reached from the root through a non-empty path of keys not starting with \<^verbatim>\<open>$\<close>
  whose intermediate nodes are all group nodes: the traversal does not descend into a
  token node, it never follows a key starting with \<^verbatim>\<open>$\<close>, and a value that is not an object
  is neither visited nor reported.  Every visited node is among those the claim names.
\<close>

theorem traverseTokens_visits:
  "(tree \<noteq> JNull \<longrightarrow>
      traverseTokens tree cb [] layer st = visitAll cb layer (tokens tree) st)
   \<and> set (tokens tree) = visitedTokens tree
   \<and> visitedTokens tree \<subseteq> reachableTokens tree"
proof -
  have "set (tokens tree) = visitedTokens tree"
    by (simp add: tokens_def visitedTokens_def set_tokensOf)
  moreover have "visitedTokens tree \<subseteq> reachableTokens tree"
    by (simp add: visitedTokens_def reachableTokens_def visitedIn_subset)
  ultimately show ?thesis
    by (simp add: traverseTokens_visitAll)
qed

theorem traverseTokens_visits_witness:
  "nestedTree \<noteq> JNull
   \<and> traverseTokens nestedTree cbIndex [] ''unknown'' ([], initialResults)
       = visitAll cbIndex ''unknown'' (tokens nestedTree) ([], initialResults)
   \<and> ([''a''], JObj [(''$value'', JNum (Fin 1)), (''b'', JObj [(''$value'', JNum (Fin 2))])])
       \<in> visitedTokens nestedTree"
proof -
  have ne: "nestedTree \<noteq> JNull"
    by (simp add: nestedTree_def)
  have "([''a''], JObj [(''$value'', JNum (Fin 1)), (''b'', JObj [(''$value'', JNum (Fin 2))])])
          \<in> set (tokens nestedTree)"
    by (simp add: tokens_nestedTree)
  with ne traverseTokens_visits [of nestedTree cbIndex "''unknown''" "([], initialResults)"]
  show ?thesis by simp
qed

text \<open>
  Claim C10 as stated fails on a token nested in a token: the inner node is an object with
  the key \<^verbatim>\<open>$value\<close>, reached through the keys \<^verbatim>\<open>a\<close> and \<^verbatim>\<open>b\<close>, and the callback (here the one
  that records the paths it is given) is called on the outer token only.
\<close>

theorem traverseTokens_skips_nested_token:
  "([''a'', ''b''], JObj [(''$value'', JNum (Fin 2))]) \<in> reachableTokens nestedTree
   \<and> map_sum id fst (traverseTokens nestedTree cbIndex [] ''unknown'' ([], initialResults))
       = Inr [''a'']"
proof -
  have "([''a'', ''b''], JObj [(''$value'', JNum (Fin 2))]) \<in> reachableTokens nestedTree"
    by (simp add: reachableTokens_def reachableIn_def nestedTree_def noMetaKey_def startsWith_def)
  moreover have "nestedTree \<noteq> JNull"
    by (simp add: nestedTree_def)
  then have "map_sum id fst (traverseTokens nestedTree cbIndex [] ''unknown'' ([], initialResults))
       = Inr [''a'']"
    by (simp add: traverseTokens_visitAll tokens_nestedTree cbIndex_def setAdd_def getTokenPath_def)
  ultimately show ?thesis by simp
qed

section \<open>Evaluation on concrete trees\<close>

lemmas audit_defs =
  startsWith_def endsWith_def getTokenPath_def addPass_def addWarning_def addCritical_def
  countToken_def initialResults_def isHexDigit_def isHex6_def componentRange_def
  validateColorValue_def validateDimensionValue_def validateTypographyValue_def
  validateShadowValue_def incMissingType_def incMissingDescription_def incInvalidReferences_def
  cbMissingType_def cbDescriptionPrimitive_def cbDescriptionSemantic_def cbValueFormat_def
  cbDepth_def setAdd_def cbIndex_def isReference_def checkReferenceString_def checkReferences_def
  cbReferences_def cbLayerPrefix_def states_def lastSegment_def cbStateLevels_def tokenValue_def
  cbColorFormat_def cbDimensionFormat_def cbTypographyFormat_def cbShadowFormat_def
  cbNumberFormat_def essentialSemantics_def expectedScales_def scaleCategories_def nthOpt_def
  cbFoundScales_def statePatterns_def cbHasStates_def vagueWords_def cbUnclearDescription_def
  objectPrototypeKeys_def typeSetAdd_def cbTypesByCategory_def isDigit_def readNat_def
  isArrayIndex_def objectEntriesOrder_def joinElement_def cbAccessibility_def js_lt_def js_gt_def
  js_mod100_nonzero_def toLowerCase_def toLowerChar_def digit_def show_nat.simps Let_def
  traverseTokens_visitAll tokens_def

lemmas checker_defs =
  checkDTCGCompliance_def checkReferenceIntegrity_def checkNamingConventions_def
  checkValueFormatConsistency_def checkCompleteness_def checkQuality_def

text \<open>
  A runtime for the closed statements below; none of them converts a string to a number or
  a number to a string.
\<close>

definition sampleRuntime :: runtime where
  "sampleRuntime = \<lparr>StringToNumber = (\<lambda>s. NaN), NumberToString = (\<lambda>n. ''NaN'')\<rparr>"

section \<open>The depth rule\<close>

definition depthWarning :: "string list \<Rightarrow> string" where
  "depthWarning path =
     getTokenPath path @ '': Nesting depth '' @ show_nat (length path)
       @ '' exceeds recommended max of 4''"

lemma visitAll_cbDepth:
  "\<exists>r'. visitAll cbDepth layer toks ((), r) = Inr ((), r')
      \<and> warnings r' = warnings r @ map depthWarning (filter (\<lambda>p. length p > 4) (map fst toks))
      \<and> critical r' = critical r \<and> pass r' = pass r"
proof (induction toks arbitrary: r)
  case Nil
  show ?case by simp
next
  case (Cons pt toks)
  define r1 where
    "r1 = (if length (fst pt) > 4 then addWarning (depthWarning (fst pt)) r else r)"
  have r1: "cbDepth (fst pt) (snd pt) layer ((), r) = Inr ((), r1)"
    and w1: "warnings r1 = warnings r @ (if length (fst pt) > 4 then [depthWarning (fst pt)] else [])"
    and c1: "critical r1 = critical r" "pass r1 = pass r"
    by (simp_all add: r1_def cbDepth_def depthWarning_def addWarning_def)
  obtain r2 where r2: "countToken layer ((), r1) = ((), r2)"
    by (cases "countToken layer ((), r1)") simp
  then have eq2: "warnings r2 = warnings r1" "critical r2 = critical r1" "pass r2 = pass r1"
    using countToken_simps(2-4) [of layer "((), r1)"] by simp_all
  from Cons.IH [of r2] obtain r' where
    "visitAll cbDepth layer toks ((), r2) = Inr ((), r')"
    "warnings r' = warnings r2 @ map depthWarning (filter (\<lambda>p. length p > 4) (map fst toks))"
    "critical r' = critical r2" "pass r' = pass r2"
    by blast
  with r1 r2 w1 c1 eq2 show ?case by simp
qed

definition deepTree :: json where
  "deepTree =
     JObj [(''color'', JObj [(''background'', JObj [(''neutral'', JObj [(''base'', JObj [(''hover'',
       JObj [(''$type'', JStr ''color''),
             (''$value'', JStr ''{color.neutral.200}''),
             (''$description'', JStr ''Hovered neutral background'')])])])])])]"

lemma tokens_deepTree:
  "tokens deepTree =
     [([''color'', ''background'', ''neutral'', ''base'', ''hover''],
       JObj [(''$type'', JStr ''color''),
             (''$value'', JStr ''{color.neutral.200}''),
             (''$description'', JStr ''Hovered neutral background'')])]"
  by (simp add: tokens_def deepTree_def startsWith_def)

text \<open>
  Claim C4, as amended.  The depth callback of \<^verbatim>\<open>checkDTCGCompliance\<close> looks at the length of
  the path only: a token whose path has at most 4 segments gets no depth warning, and a
  token whose path has more than 4 segments gets exactly one, whatever its last segment is.
  A traversal with this callback appends one depth warning for each token whose path has
  more than 4 segments, in the order of the visits, and nothing else.
\<close>

theorem depth_warning_per_token:
  "(length path \<le> 4 \<longrightarrow> cbDepth path token layer st = Inr st)
   \<and> (length path > 4 \<longrightarrow>
        cbDepth path token layer st = Inr ((), addWarning (depthWarning path) (snd st)))
   \<and> (tree \<noteq> JNull \<longrightarrow>
        (\<exists>r'. traverseTokens tree cbDepth [] layer ((), r) = Inr ((), r')
           \<and> warnings r' = warnings r
                @ map depthWarning (filter (\<lambda>p. length p > 4) (map fst (tokens tree)))
           \<and> critical r' = critical r \<and> pass r' = pass r))"
  using visitAll_cbDepth [of layer "tokens tree" r]
  by (simp add: cbDepth_def depthWarning_def traverseTokens_visitAll)

theorem depth_warning_per_token_witness:
  "deepTree \<noteq> JNull
   \<and> length [''color'', ''background'', ''neutral'', ''base'', ''hover''] > 4
   \<and> length [''color'', ''background'', ''neutral'', ''base''] \<le> 4
   \<and> cbDepth [''color'', ''background'', ''neutral'', ''base''] JNull ''semantic'' ((), initialResults)
       = Inr ((), initialResults)
   \<and> cbDepth [''color'', ''background'', ''neutral'', ''base'', ''hover''] JNull ''semantic''
         ((), initialResults)
       = Inr ((), addWarning
                    (depthWarning [''color'', ''background'', ''neutral'', ''base'', ''hover''])
                    initialResults)
   \<and> (\<exists>r'. traverseTokens deepTree cbDepth [] ''semantic'' ((), initialResults) = Inr ((), r')
          \<and> warnings r' = [depthWarning [''color'', ''background'', ''neutral'', ''base'', ''hover'']])"
proof -
  have ne: "deepTree \<noteq> JNull"
    by (simp add: deepTree_def)
  have w0: "warnings initialResults = []"
    by (simp add: initialResults_def)
  from depth_warning_per_token
         [of "[''color'', ''background'', ''neutral'', ''base'']" JNull "''semantic''"
             "((), initialResults)" deepTree initialResults]
       depth_warning_per_token
         [of "[''color'', ''background'', ''neutral'', ''base'', ''hover'']" JNull "''semantic''"
             "((), initialResults)" deepTree initialResults]
       ne w0
  show ?thesis by (auto simp: tokens_deepTree)
qed

text \<open>
  Claim C4 as stated fails for a path of 5 segments that ends in a state name: the token
  \<^verbatim>\<open>color.background.neutral.base.hover\<close> of the semantic tree gets the depth warning.
\<close>

theorem depth_warning_with_state_suffix:
  \<open>''hover'' \<in> set states
   \<and> map_sum id warnings (checkDTCGCompliance sampleRuntime (JObj []) deepTree initialResults)
       = Inr [''color.background.neutral.base.hover: Nesting depth 5 exceeds recommended max of 4'']\<close>
proof -
  have ne: "deepTree \<noteq> JNull" "JObj [] \<noteq> JNull"
    by (simp_all add: deepTree_def)
  have "map_sum id warnings (checkDTCGCompliance sampleRuntime (JObj []) deepTree initialResults)
       = Inr [''color.background.neutral.base.hover: Nesting depth 5 exceeds recommended max of 4'']"
    unfolding checkDTCGCompliance_def
    by (simp add: ne traverseTokens_visitAll tokens_deepTree)
       (simp add: audit_defs)
  then show ?thesis by (simp add: states_def)
qed

section \<open>Facts about the rounding to a double\<close>

lemma bitlen_nat_bounds:
  "0 < n \<Longrightarrow> 2 ^ (bitlen_nat n - 1) \<le> n \<and> n < 2 ^ bitlen_nat n"
proof (induction n rule: bitlen_nat.induct)
  case (1 n)
  show ?case
  proof (cases "n div 2 = 0")
    case True
    with \<open>0 < n\<close> have "n = 1" by presburger
    then show ?thesis by (simp add: bitlen_nat.simps)
  next
    case False
    with "1.IH" \<open>0 < n\<close> have ih: "2 ^ (bitlen_nat (n div 2) - 1) \<le> n div 2"
      "n div 2 < 2 ^ bitlen_nat (n div 2)"
      by simp_all
    from False have pos: "0 < bitlen_nat (n div 2)"
      by (simp add: bitlen_nat.simps [of "n div 2"])
    have eq: "bitlen_nat n = Suc (bitlen_nat (n div 2))"
      using \<open>0 < n\<close> by (simp add: bitlen_nat.simps [of n])
    from pos have "(2::nat) ^ bitlen_nat (n div 2) = 2 * 2 ^ (bitlen_nat (n div 2) - 1)"
      by (cases "bitlen_nat (n div 2)") simp_all
    with ih have "2 ^ bitlen_nat (n div 2) \<le> n" "n < 2 * 2 ^ bitlen_nat (n div 2)"
      by presburger+
    then show ?thesis by (simp add: eq)
  qed
qed

lemma ilog2_bounds:
  assumes "0 < x"
  shows "2 powi (ilog2 x) \<le> x \<and> x < 2 powi (ilog2 x + 1)"
proof -
  obtain a b where q: "quotient_of x = (a, b)" by (cases "quotient_of x")
  then have b: "0 < b" and x: "x = of_int a / of_int b"
    by (simp_all add: quotient_of_denom_pos quotient_of_div)
  with assms have a: "0 < a"
    by (simp add: zero_less_divide_iff)
  define la lb where "la = bitlen_nat (nat a)" and "lb = bitlen_nat (nat b)"
  have na: "2 ^ (la - 1) \<le> nat a" "nat a < 2 ^ la" and nb: "2 ^ (lb - 1) \<le> nat b" "nat b < 2 ^ lb"
    using bitlen_nat_bounds [of "nat a"] bitlen_nat_bounds [of "nat b"] a b
    by (simp_all add: la_def lb_def)
  have lpos: "0 < la" "0 < lb"
    using a b by (simp_all add: la_def lb_def bitlen_nat.simps [of "nat a"] bitlen_nat.simps [of "nat b"])
  have ra: "(2::rat) ^ (la - 1) \<le> of_int a" "of_int a < (2::rat) ^ la"
  proof -
    have "of_nat (2 ^ (la - 1)) \<le> (of_nat (nat a) :: rat)" "(of_nat (nat a) :: rat) < of_nat (2 ^ la)"
      using na by (simp_all only: of_nat_le_iff of_nat_less_iff)
    with a show "(2::rat) ^ (la - 1) \<le> of_int a" "of_int a < (2::rat) ^ la" by simp_all
  qed
  have rb: "(2::rat) ^ (lb - 1) \<le> of_int b" "of_int b < (2::rat) ^ lb"
  proof -
    have "of_nat (2 ^ (lb - 1)) \<le> (of_nat (nat b) :: rat)" "(of_nat (nat b) :: rat) < of_nat (2 ^ lb)"
      using nb by (simp_all only: of_nat_le_iff of_nat_less_iff)
    with b show "(2::rat) ^ (lb - 1) \<le> of_int b" "of_int b < (2::rat) ^ lb" by simp_all
  qed
  define d where "d = int la - int lb"
  have il: "ilog2 x = (if 2 powi d \<le> x then d else d - 1)"
    by (simp add: ilog2_def q la_def lb_def d_def Let_def)
  have bpos: "(0::rat) < of_int b" "(0::rat) < of_int a"
    using a b by simp_all
  have low: "2 powi (d - 1) \<le> x"
  proof -
    have "d - 1 = int (la - 1) - int lb"
      using lpos by (simp add: d_def)
    then have "(2::rat) powi (d - 1) = 2 ^ (la - 1) / 2 ^ lb"
      by (simp add: power_int_diff)
    also have "\<dots> \<le> of_int a / 2 ^ lb"
      using ra(1) by (simp add: divide_right_mono)
    also have "\<dots> \<le> of_int a / of_int b"
      using rb(2) bpos by (simp add: frac_le)
    finally show ?thesis by (simp add: x)
  qed
  have up: "x < 2 powi (d + 1)"
  proof -
    have "d + 1 = int la - int (lb - 1)"
      using lpos by (simp add: d_def)
    then have eq: "(2::rat) powi (d + 1) = 2 ^ la / 2 ^ (lb - 1)"
      by (simp add: power_int_diff)
    have "x < 2 ^ la / of_int b"
      using ra(2) bpos by (simp add: x divide_strict_right_mono)
    also have "\<dots> \<le> 2 ^ la / 2 ^ (lb - 1)"
      using rb(1) by (simp add: frac_le)
    finally show ?thesis by (simp add: eq)
  qed
  show ?thesis
  proof (cases "2 powi d \<le> x")
    case True
    with il up show ?thesis by simp
  next
    case False
    with il low show ?thesis by simp
  qed
qed

lemma ilog2_unique:
  assumes "0 < x" and lo: "2 powi e \<le> x" and hi: "x < 2 powi (e + 1)"
  shows "ilog2 x = e"
proof -
  from ilog2_bounds [OF \<open>0 < x\<close>]
  have b: "2 powi (ilog2 x) \<le> x" "x < 2 powi (ilog2 x + 1)" by simp_all
  have "ilog2 x < e + 1"
  proof (rule ccontr)
    assume "\<not> ilog2 x < e + 1"
    then have "(2::rat) powi (e + 1) \<le> 2 powi (ilog2 x)"
      by (intro power_int_increasing) simp_all
    with b(1) hi show False by simp
  qed
  moreover have "e < ilog2 x + 1"
  proof (rule ccontr)
    assume "\<not> e < ilog2 x + 1"
    then have "(2::rat) powi (ilog2 x + 1) \<le> 2 powi e"
      by (intro power_int_increasing) simp_all
    with b(2) lo show False by simp
  qed
  ultimately show ?thesis by simp
qed

lemma roundHalfEven_err: "\<bar>of_int (roundHalfEven m) - m\<bar> \<le> 1 / 2"
proof -
  have "of_int \<lfloor>m\<rfloor> \<le> m" "m < of_int \<lfloor>m\<rfloor> + 1"
    by linarith+
  then show ?thesis
    by (auto simp: roundHalfEven_def Let_def)
qed

lemma roundHalfEven_eqI:
  assumes "of_int n - 1 / 2 < m" and "m < of_int n + 1 / 2"
  shows "roundHalfEven m = n"
proof -
  have "\<bar>of_int (roundHalfEven m) - m\<bar> \<le> 1 / 2"
    by (rule roundHalfEven_err)
  with assms have "\<bar>(of_int (roundHalfEven m) :: rat) - of_int n\<bar> < 1"
    by linarith
  then have "\<bar>roundHalfEven m - n\<bar> < 1"
    by (metis of_int_diff of_int_abs of_int_less_iff of_int_1)
  then show ?thesis by simp
qed

lemma roundHalfEven_tie:
  assumes "m = of_int n + 1 / 2"
  shows "roundHalfEven m = (if even n then n else n + 1)"
proof -
  have "\<lfloor>m\<rfloor> = n"
    unfolding assms by linarith
  then show ?thesis
    by (simp add: roundHalfEven_def Let_def assms)
qed

lemma fl_eqI:
  assumes "0 < x" and "2 powi e \<le> x" and "x < 2 powi (e + 1)" and "- 1022 \<le> e"
    and "u = 2 powi (e - 52)" and "roundHalfEven (x / u) = n"
  shows "fl x = of_int n * u"
proof -
  have "ilog2 x = e"
    using assms(1-3) by (rule ilog2_unique)
  with assms show ?thesis
    by (simp add: fl_def Let_def max_def)
qed

lemma fl_error:
  assumes "x \<noteq> 0" and lt: "\<bar>x\<bar> < 2 powi k" and k: "- 1021 \<le> k"
  shows "\<bar>fl x - x\<bar> \<le> 2 powi (k - 54)"
proof -
  define e where "e = ilog2 \<bar>x\<bar>"
  define q where "q = max e (- 1022) - 52"
  define m where "m = \<bar>x\<bar> / 2 powi q"
  have pos: "0 < \<bar>x\<bar>" using assms(1) by simp
  have "2 powi e \<le> \<bar>x\<bar>"
    using ilog2_bounds [OF pos] by (simp add: e_def)
  with lt have "(2::rat) powi e < 2 powi k" by simp
  have "e < k"
  proof (rule ccontr)
    assume "\<not> e < k"
    then have "(2::rat) powi k \<le> 2 powi e"
      by (intro power_int_increasing) simp_all
    with \<open>(2::rat) powi e < 2 powi k\<close> show False by simp
  qed
  with k have q: "q \<le> k - 53"
    by (simp add: q_def)
  have upos: "(0::rat) < 2 powi q" by simp
  have x: "x = sgn x * (m * 2 powi q)"
    by (simp add: m_def sgn_mult_abs)
  have "fl x = sgn x * (of_int (roundHalfEven m) * 2 powi q)"
    using assms(1) by (simp add: fl_def Let_def q_def e_def m_def mult.assoc)
  then have "fl x - x = sgn x * ((of_int (roundHalfEven m) - m) * 2 powi q)"
    using x by (metis left_diff_distrib right_diff_distrib)
  then have "\<bar>fl x - x\<bar> = \<bar>of_int (roundHalfEven m) - m\<bar> * 2 powi q"
    using assms(1) by (simp add: abs_mult abs_sgn_eq)
  also have "\<dots> \<le> (1 / 2) * 2 powi q"
    using roundHalfEven_err [of m] upos by (intro mult_right_mono) simp_all
  also have "\<dots> = 2 powi (q - 1)"
    by (simp add: power_int_diff)
  also have "\<dots> \<le> 2 powi (k - 54)"
    using q by (intro power_int_increasing) simp_all
  finally show ?thesis .
qed

text \<open>
  The quotients \<open>(2 j + 1) / 200\<close> whose exact percentage \<open>j + 1/2\<close> lies half-way between two
  integers, for the \<open>j\<close> that a numerator of at most 19 can produce: the double computation
  does not fall below the half.
\<close>

lemma score_tie_0: "0 + 1 / 2 \<le> fl (fl (1 / 200) * 100)"
proof -
  have a_r: "roundHalfEven ((1 / 200) / (1 / 1152921504606846976)) = 5764607523034235"
    by (rule roundHalfEven_eqI) simp_all
  have a: "fl (1 / 200) = 5764607523034235 / 1152921504606846976"
    using fl_eqI [of "1 / 200" "-8" "1 / 1152921504606846976" "5764607523034235", OF _ _ _ _ _ a_r] by simp
  have b_r: "roundHalfEven (((5764607523034235 / 1152921504606846976) * 100) / (1 / 9007199254740992)) = 4503599627370496"
    by (rule roundHalfEven_eqI) simp_all
  have b: "fl ((5764607523034235 / 1152921504606846976) * 100) = 1 / 2"
    using fl_eqI [of "(5764607523034235 / 1152921504606846976) * 100" "-1" "1 / 9007199254740992" "4503599627370496", OF _ _ _ _ _ b_r] by simp
  show ?thesis unfolding a b by simp
qed

lemma score_tie_1: "1 + 1 / 2 \<le> fl (fl (3 / 200) * 100)"
proof -
  have a_r: "roundHalfEven ((3 / 200) / (1 / 576460752303423488)) = 8646911284551352"
    by (rule roundHalfEven_eqI) simp_all
  have a: "fl (3 / 200) = 1080863910568919 / 72057594037927936"
    using fl_eqI [of "3 / 200" "-7" "1 / 576460752303423488" "8646911284551352", OF _ _ _ _ _ a_r] by simp
  have b_r: "roundHalfEven (((1080863910568919 / 72057594037927936) * 100) / (1 / 4503599627370496)) = 6755399441055744"
    by (rule roundHalfEven_eqI) simp_all
  have b: "fl ((1080863910568919 / 72057594037927936) * 100) = 3 / 2"
    using fl_eqI [of "(1080863910568919 / 72057594037927936) * 100" "0" "1 / 4503599627370496" "6755399441055744", OF _ _ _ _ _ b_r] by simp
  show ?thesis unfolding a b by simp
qed

lemma score_tie_2: "2 + 1 / 2 \<le> fl (fl (5 / 200) * 100)"
proof -
  have a_r: "roundHalfEven ((5 / 200) / (1 / 288230376151711744)) = 7205759403792794"
    by (rule roundHalfEven_eqI) simp_all
  have a: "fl (5 / 200) = 3602879701896397 / 144115188075855872"
    using fl_eqI [of "5 / 200" "-6" "1 / 288230376151711744" "7205759403792794", OF _ _ _ _ _ a_r] by simp
  have b_r: "roundHalfEven (((3602879701896397 / 144115188075855872) * 100) / (1 / 2251799813685248)) = 5629499534213120"
    by (rule roundHalfEven_eqI) simp_all
  have b: "fl ((3602879701896397 / 144115188075855872) * 100) = 5 / 2"
    using fl_eqI [of "(3602879701896397 / 144115188075855872) * 100" "1" "1 / 2251799813685248" "5629499534213120", OF _ _ _ _ _ b_r] by simp
  show ?thesis unfolding a b by simp
qed

lemma score_tie_3: "3 + 1 / 2 \<le> fl (fl (7 / 200) * 100)"
proof -
  have a_r: "roundHalfEven ((7 / 200) / (1 / 144115188075855872)) = 5044031582654956"
    by (rule roundHalfEven_eqI) simp_all
  have a: "fl (7 / 200) = 1261007895663739 / 36028797018963968"
    using fl_eqI [of "7 / 200" "-5" "1 / 144115188075855872" "5044031582654956", OF _ _ _ _ _ a_r] by simp
  have b_r: "roundHalfEven (((1261007895663739 / 36028797018963968) * 100) / (1 / 2251799813685248)) = 7881299347898369"
    by (rule roundHalfEven_eqI) simp_all
  have b: "fl ((1261007895663739 / 36028797018963968) * 100) = 7881299347898369 / 2251799813685248"
    using fl_eqI [of "(1261007895663739 / 36028797018963968) * 100" "1" "1 / 2251799813685248" "7881299347898369", OF _ _ _ _ _ b_r] by simp
  show ?thesis unfolding a b by simp
qed

lemma score_tie_4: "4 + 1 / 2 \<le> fl (fl (9 / 200) * 100)"
proof -
  have a_r: "roundHalfEven ((9 / 200) / (1 / 144115188075855872)) = 6485183463413514"
    by (rule roundHalfEven_eqI) simp_all
  have a: "fl (9 / 200) = 3242591731706757 / 72057594037927936"
    using fl_eqI [of "9 / 200" "-5" "1 / 144115188075855872" "6485183463413514", OF _ _ _ _ _ a_r] by simp
  have b_r: "roundHalfEven (((3242591731706757 / 72057594037927936) * 100) / (1 / 1125899906842624)) = 5066549580791808"
    by (rule roundHalfEven_eqI) simp_all
  have b: "fl ((3242591731706757 / 72057594037927936) * 100) = 9 / 2"
    using fl_eqI [of "(3242591731706757 / 72057594037927936) * 100" "2" "1 / 1125899906842624" "5066549580791808", OF _ _ _ _ _ b_r] by simp
  show ?thesis unfolding a b by simp
qed

lemma score_tie_5: "5 + 1 / 2 \<le> fl (fl (11 / 200) * 100)"
proof -
  have a_r: "roundHalfEven ((11 / 200) / (1 / 144115188075855872)) = 7926335344172073"
    by (rule roundHalfEven_eqI) simp_all
  have a: "fl (11 / 200) = 7926335344172073 / 144115188075855872"
    using fl_eqI [of "11 / 200" "-5" "1 / 144115188075855872" "7926335344172073", OF _ _ _ _ _ a_r] by simp
  have b_r: "roundHalfEven (((7926335344172073 / 144115188075855872) * 100) / (1 / 1125899906842624)) = 6192449487634432"
    by (rule roundHalfEven_eqI) simp_all
  have b: "fl ((7926335344172073 / 144115188075855872) * 100) = 11 / 2"
    using fl_eqI [of "(7926335344172073 / 144115188075855872) * 100" "2" "1 / 1125899906842624" "6192449487634432", OF _ _ _ _ _ b_r] by simp
  show ?thesis unfolding a b by simp
qed

lemma score_tie_6: "6 + 1 / 2 \<le> fl (fl (13 / 200) * 100)"
proof -
  have a_r: "roundHalfEven ((13 / 200) / (1 / 72057594037927936)) = 4683743612465316"
    by (rule roundHalfEven_eqI) simp_all
  have a: "fl (13 / 200) = 1170935903116329 / 18014398509481984"
    using fl_eqI [of "13 / 200" "-4" "1 / 72057594037927936" "4683743612465316", OF _ _ _ _ _ a_r] by simp
  have b_r: "roundHalfEven (((1170935903116329 / 18014398509481984) * 100) / (1 / 1125899906842624)) = 7318349394477056"
    by (rule roundHalfEven_eqI) simp_all
  have b: "fl ((1170935903116329 / 18014398509481984) * 100) = 13 / 2"
    using fl_eqI [of "(1170935903116329 / 18014398509481984) * 100" "2" "1 / 1125899906842624" "7318349394477056", OF _ _ _ _ _ b_r] by simp
  show ?thesis unfolding a b by simp
qed

lemma score_tie_7: "7 + 1 / 2 \<le> fl (fl (15 / 200) * 100)"
proof -
  have a_r: "roundHalfEven ((15 / 200) / (1 / 72057594037927936)) = 5404319552844595"
    by (rule roundHalfEven_eqI) simp_all
  have a: "fl (15 / 200) = 5404319552844595 / 72057594037927936"
    using fl_eqI [of "15 / 200" "-4" "1 / 72057594037927936" "5404319552844595", OF _ _ _ _ _ a_r] by simp
  have b_r: "roundHalfEven (((5404319552844595 / 72057594037927936) * 100) / (1 / 1125899906842624)) = 8444249301319680"
    by (rule roundHalfEven_eqI) simp_all
  have b: "fl ((5404319552844595 / 72057594037927936) * 100) = 15 / 2"
    using fl_eqI [of "(5404319552844595 / 72057594037927936) * 100" "2" "1 / 1125899906842624" "8444249301319680", OF _ _ _ _ _ b_r] by simp
  show ?thesis unfolding a b by simp
qed

lemma score_tie_8: "8 + 1 / 2 \<le> fl (fl (17 / 200) * 100)"
proof -
  have a_r: "roundHalfEven ((17 / 200) / (1 / 72057594037927936)) = 6124895493223875"
    by (rule roundHalfEven_eqI) simp_all
  have a: "fl (17 / 200) = 6124895493223875 / 72057594037927936"
    using fl_eqI [of "17 / 200" "-4" "1 / 72057594037927936" "6124895493223875", OF _ _ _ _ _ a_r] by simp
  have b_r: "roundHalfEven (((6124895493223875 / 72057594037927936) * 100) / (1 / 562949953421312)) = 4785074604081152"
    by (rule roundHalfEven_eqI) simp_all
  have b: "fl ((6124895493223875 / 72057594037927936) * 100) = 17 / 2"
    using fl_eqI [of "(6124895493223875 / 72057594037927936) * 100" "3" "1 / 562949953421312" "4785074604081152", OF _ _ _ _ _ b_r] by simp
  show ?thesis unfolding a b by simp
qed

lemma score_tie_9: "9 + 1 / 2 \<le> fl (fl (19 / 200) * 100)"
proof -
  have a_r: "roundHalfEven ((19 / 200) / (1 / 72057594037927936)) = 6845471433603154"
    by (rule roundHalfEven_eqI) simp_all
  have a: "fl (19 / 200) = 3422735716801577 / 36028797018963968"
    using fl_eqI [of "19 / 200" "-4" "1 / 72057594037927936" "6845471433603154", OF _ _ _ _ _ a_r] by simp
  have b_r: "roundHalfEven (((3422735716801577 / 36028797018963968) * 100) / (1 / 562949953421312)) = 5348024557502464"
    by (rule roundHalfEven_eqI) simp_all
  have b: "fl ((3422735716801577 / 36028797018963968) * 100) = 19 / 2"
    using fl_eqI [of "(3422735716801577 / 36028797018963968) * 100" "3" "1 / 562949953421312" "5348024557502464", OF _ _ _ _ _ b_r] by simp
  show ?thesis unfolding a b by simp
qed

lemma score_tie_12: "12 + 1 / 2 \<le> fl (fl (25 / 200) * 100)"
proof -
  have a_r: "roundHalfEven ((25 / 200) / (1 / 36028797018963968)) = 4503599627370496"
    by (rule roundHalfEven_eqI) simp_all
  have a: "fl (25 / 200) = 1 / 8"
    using fl_eqI [of "25 / 200" "-3" "1 / 36028797018963968" "4503599627370496", OF _ _ _ _ _ a_r] by simp
  have b_r: "roundHalfEven (((1 / 8) * 100) / (1 / 562949953421312)) = 7036874417766400"
    by (rule roundHalfEven_eqI) simp_all
  have b: "fl ((1 / 8) * 100) = 25 / 2"
    using fl_eqI [of "(1 / 8) * 100" "3" "1 / 562949953421312" "7036874417766400", OF _ _ _ _ _ b_r] by simp
  show ?thesis unfolding a b by simp
qed

lemma score_tie_17: "17 + 1 / 2 \<le> fl (fl (35 / 200) * 100)"
proof -
  have a_r: "roundHalfEven ((35 / 200) / (1 / 36028797018963968)) = 6305039478318694"
    by (rule roundHalfEven_eqI) simp_all
  have a: "fl (35 / 200) = 3152519739159347 / 18014398509481984"
    using fl_eqI [of "35 / 200" "-3" "1 / 36028797018963968" "6305039478318694", OF _ _ _ _ _ a_r] by simp
  have b_r: "roundHalfEven (((3152519739159347 / 18014398509481984) * 100) / (1 / 281474976710656)) = 4925812092436480"
    by (rule roundHalfEven_eqI) simp_all
  have b: "fl ((3152519739159347 / 18014398509481984) * 100) = 35 / 2"
    using fl_eqI [of "(3152519739159347 / 18014398509481984) * 100" "4" "1 / 281474976710656" "4925812092436480", OF _ _ _ _ _ b_r] by simp
  show ?thesis unfolding a b by simp
qed

lemma score_tie_22: "22 + 1 / 2 \<le> fl (fl (45 / 200) * 100)"
proof -
  have a_r: "roundHalfEven ((45 / 200) / (1 / 36028797018963968)) = 8106479329266893"
    by (rule roundHalfEven_eqI) simp_all
  have a: "fl (45 / 200) = 8106479329266893 / 36028797018963968"
    using fl_eqI [of "45 / 200" "-3" "1 / 36028797018963968" "8106479329266893", OF _ _ _ _ _ a_r] by simp
  have b_r: "roundHalfEven (((8106479329266893 / 36028797018963968) * 100) / (1 / 281474976710656)) = 6333186975989760"
    by (rule roundHalfEven_eqI) simp_all
  have b: "fl ((8106479329266893 / 36028797018963968) * 100) = 45 / 2"
    using fl_eqI [of "(8106479329266893 / 36028797018963968) * 100" "4" "1 / 281474976710656" "6333186975989760", OF _ _ _ _ _ b_r] by simp
  show ?thesis unfolding a b by simp
qed

lemma score_tie_27: "27 + 1 / 2 \<le> fl (fl (55 / 200) * 100)"
proof -
  have a_r: "roundHalfEven ((55 / 200) / (1 / 18014398509481984)) = 4953959590107546"
    by (rule roundHalfEven_eqI) simp_all
  have a: "fl (55 / 200) = 2476979795053773 / 9007199254740992"
    using fl_eqI [of "55 / 200" "-2" "1 / 18014398509481984" "4953959590107546", OF _ _ _ _ _ a_r] by simp
  have b_r: "roundHalfEven (((2476979795053773 / 9007199254740992) * 100) / (1 / 281474976710656)) = 7740561859543041"
    by (rule roundHalfEven_eqI) simp_all
  have b: "fl ((2476979795053773 / 9007199254740992) * 100) = 7740561859543041 / 281474976710656"
    using fl_eqI [of "(2476979795053773 / 9007199254740992) * 100" "4" "1 / 281474976710656" "7740561859543041", OF _ _ _ _ _ b_r] by simp
  show ?thesis unfolding a b by simp
qed

lemma score_tie_32: "32 + 1 / 2 \<le> fl (fl (65 / 200) * 100)"
proof -
  have a_r: "roundHalfEven ((65 / 200) / (1 / 18014398509481984)) = 5854679515581645"
    by (rule roundHalfEven_eqI) simp_all
  have a: "fl (65 / 200) = 5854679515581645 / 18014398509481984"
    using fl_eqI [of "65 / 200" "-2" "1 / 18014398509481984" "5854679515581645", OF _ _ _ _ _ a_r] by simp
  have b_r: "roundHalfEven (((5854679515581645 / 18014398509481984) * 100) / (1 / 140737488355328)) = 4573968371548160"
    by (rule roundHalfEven_eqI) simp_all
  have b: "fl ((5854679515581645 / 18014398509481984) * 100) = 65 / 2"
    using fl_eqI [of "(5854679515581645 / 18014398509481984) * 100" "5" "1 / 140737488355328" "4573968371548160", OF _ _ _ _ _ b_r] by simp
  show ?thesis unfolding a b by simp
qed

lemma score_tie_37: "37 + 1 / 2 \<le> fl (fl (75 / 200) * 100)"
proof -
  have a_r: "roundHalfEven ((75 / 200) / (1 / 18014398509481984)) = 6755399441055744"
    by (rule roundHalfEven_eqI) simp_all
  have a: "fl (75 / 200) = 3 / 8"
    using fl_eqI [of "75 / 200" "-2" "1 / 18014398509481984" "6755399441055744", OF _ _ _ _ _ a_r] by simp
  have b_r: "roundHalfEven (((3 / 8) * 100) / (1 / 140737488355328)) = 5277655813324800"
    by (rule roundHalfEven_eqI) simp_all
  have b: "fl ((3 / 8) * 100) = 75 / 2"
    using fl_eqI [of "(3 / 8) * 100" "5" "1 / 140737488355328" "5277655813324800", OF _ _ _ _ _ b_r] by simp
  show ?thesis unfolding a b by simp
qed

lemma score_tie_42: "42 + 1 / 2 \<le> fl (fl (85 / 200) * 100)"
proof -
  have a_r: "roundHalfEven ((85 / 200) / (1 / 18014398509481984)) = 7656119366529843"
    by (rule roundHalfEven_eqI) simp_all
  have a: "fl (85 / 200) = 7656119366529843 / 18014398509481984"
    using fl_eqI [of "85 / 200" "-2" "1 / 18014398509481984" "7656119366529843", OF _ _ _ _ _ a_r] by simp
  have b_r: "roundHalfEven (((7656119366529843 / 18014398509481984) * 100) / (1 / 140737488355328)) = 5981343255101440"
    by (rule roundHalfEven_eqI) simp_all
  have b: "fl ((7656119366529843 / 18014398509481984) * 100) = 85 / 2"
    using fl_eqI [of "(7656119366529843 / 18014398509481984) * 100" "5" "1 / 140737488355328" "5981343255101440", OF _ _ _ _ _ b_r] by simp
  show ?thesis unfolding a b by simp
qed

lemma score_tie_47: "47 + 1 / 2 \<le> fl (fl (95 / 200) * 100)"
proof -
  have a_r: "roundHalfEven ((95 / 200) / (1 / 18014398509481984)) = 8556839292003942"
    by (rule roundHalfEven_eqI) simp_all
  have a: "fl (95 / 200) = 4278419646001971 / 9007199254740992"
    using fl_eqI [of "95 / 200" "-2" "1 / 18014398509481984" "8556839292003942", OF _ _ _ _ _ a_r] by simp
  have b_r: "roundHalfEven (((4278419646001971 / 9007199254740992) * 100) / (1 / 140737488355328)) = 6685030696878080"
    by (rule roundHalfEven_eqI) simp_all
  have b: "fl ((4278419646001971 / 9007199254740992) * 100) = 95 / 2"
    using fl_eqI [of "(4278419646001971 / 9007199254740992) * 100" "5" "1 / 140737488355328" "6685030696878080", OF _ _ _ _ _ b_r] by simp
  show ?thesis unfolding a b by simp
qed

lemma score_tie_62: "62 + 1 / 2 \<le> fl (fl (125 / 200) * 100)"
proof -
  have a_r: "roundHalfEven ((125 / 200) / (1 / 9007199254740992)) = 5629499534213120"
    by (rule roundHalfEven_eqI) simp_all
  have a: "fl (125 / 200) = 5 / 8"
    using fl_eqI [of "125 / 200" "-1" "1 / 9007199254740992" "5629499534213120", OF _ _ _ _ _ a_r] by simp
  have b_r: "roundHalfEven (((5 / 8) * 100) / (1 / 140737488355328)) = 8796093022208000"
    by (rule roundHalfEven_eqI) simp_all
  have b: "fl ((5 / 8) * 100) = 125 / 2"
    using fl_eqI [of "(5 / 8) * 100" "5" "1 / 140737488355328" "8796093022208000", OF _ _ _ _ _ b_r] by simp
  show ?thesis unfolding a b by simp
qed

lemma score_tie_87: "87 + 1 / 2 \<le> fl (fl (175 / 200) * 100)"
proof -
  have a_r: "roundHalfEven ((175 / 200) / (1 / 9007199254740992)) = 7881299347898368"
    by (rule roundHalfEven_eqI) simp_all
  have a: "fl (175 / 200) = 7 / 8"
    using fl_eqI [of "175 / 200" "-1" "1 / 9007199254740992" "7881299347898368", OF _ _ _ _ _ a_r] by simp
  have b_r: "roundHalfEven (((7 / 8) * 100) / (1 / 70368744177664)) = 6157265115545600"
    by (rule roundHalfEven_eqI) simp_all
  have b: "fl ((7 / 8) * 100) = 175 / 2"
    using fl_eqI [of "(7 / 8) * 100" "6" "1 / 70368744177664" "6157265115545600", OF _ _ _ _ _ b_r] by simp
  show ?thesis unfolding a b by simp
qed

lemma score_tie:
  assumes "j \<in> {0, 1, 2, 3, 4, 5, 6, 7, 8, 9, 12, 17, 22, 27, 32, 37, 42, 47, 62, 87 :: nat}"
  shows "of_nat j + 1 / 2 \<le> fl (fl ((2 * of_nat j + 1) / 200) * 100)"
  using assms
proof (elim insertE emptyE)
  assume "j = 0"
  then show ?thesis using score_tie_0 by simp
next
  assume "j = 1"
  then show ?thesis using score_tie_1 by simp
next
  assume "j = 2"
  then show ?thesis using score_tie_2 by simp
next
  assume "j = 3"
  then show ?thesis using score_tie_3 by simp
next
  assume "j = 4"
  then show ?thesis using score_tie_4 by simp
next
  assume "j = 5"
  then show ?thesis using score_tie_5 by simp
next
  assume "j = 6"
  then show ?thesis using score_tie_6 by simp
next
  assume "j = 7"
  then show ?thesis using score_tie_7 by simp
next
  assume "j = 8"
  then show ?thesis using score_tie_8 by simp
next
  assume "j = 9"
  then show ?thesis using score_tie_9 by simp
next
  assume "j = 12"
  then show ?thesis using score_tie_12 by simp
next
  assume "j = 17"
  then show ?thesis using score_tie_17 by simp
next
  assume "j = 22"
  then show ?thesis using score_tie_22 by simp
next
  assume "j = 27"
  then show ?thesis using score_tie_27 by simp
next
  assume "j = 32"
  then show ?thesis using score_tie_32 by simp
next
  assume "j = 37"
  then show ?thesis using score_tie_37 by simp
next
  assume "j = 42"
  then show ?thesis using score_tie_42 by simp
next
  assume "j = 47"
  then show ?thesis using score_tie_47 by simp
next
  assume "j = 62"
  then show ?thesis using score_tie_62 by simp
next
  assume "j = 87"
  then show ?thesis using score_tie_87 by simp
qed

text \<open>No other half-way percentage is the quotient of a numerator between 1 and 19.\<close>

lemma score_tie_reach_all:
  "\<forall>p\<in>{..<20::nat}. \<forall>j\<in>{..<100::nat}. p \<noteq> 0 \<longrightarrow> (2 * j + 1) dvd (200 * p)
     \<longrightarrow> j \<in> {0, 1, 2, 3, 4, 5, 6, 7, 8, 9, 12, 17, 22, 27, 32, 37, 42, 47, 62, 87}"
  by (simp add: lessThan_nat_numeral)

lemma score_tie_reach:
  fixes p t j :: nat
  assumes "1 \<le> p" and "p \<le> 19" and "200 * p = (2 * j + 1) * t" and "j < 100"
  shows "j \<in> {0, 1, 2, 3, 4, 5, 6, 7, 8, 9, 12, 17, 22, 27, 32, 37, 42, 47, 62, 87}"
proof -
  have "(2 * j + 1) dvd (200 * p)"
    unfolding assms(3) by (rule dvd_triv_left)
  moreover have "p \<in> {..<20}" "j \<in> {..<100}" "p \<noteq> 0"
    using assms by simp_all
  ultimately show ?thesis
    using score_tie_reach_all by blast
qed

text \<open>
  For a numerator between 1 and 19 the score computed on doubles is the exact percentage
  rounded to the nearest integer, a tie upwards.
\<close>

lemma score_exact:
  fixes p t :: nat
  assumes p1: "1 \<le> p" and p19: "p \<le> 19" and pt: "p \<le> t"
  shows "Math_round (fl (fl (of_nat p / of_nat t) * 100)) = round (100 * of_nat p / of_nat t :: rat)"
proof -
  define x :: rat where "x = of_nat p / of_nat t"
  define Y :: rat where "Y = 100 * x"
  define w :: rat where "w = fl x * 100"
  define z :: rat where "z = fl w"
  define k :: int where "k = round Y"
  define d :: rat where "d = 2 powi (- 47) + 100 * 2 powi (- 53)"
  have tpos: "0 < t" using p1 pt by simp
  have T: "(0::rat) < of_nat t" using tpos by simp
  have xpos: "0 < x" using p1 tpos by (simp add: x_def)
  have xle: "x \<le> 1" using pt tpos by (simp add: x_def)
  have e1: "\<bar>fl x - x\<bar> \<le> 2 powi (- 53)"
    using fl_error [of x 1] xpos xle by simp
  have small: "(2::rat) powi (- 53) \<le> 1 / 100" by simp
  have wabs: "\<bar>w\<bar> < 2 powi 7"
  proof -
    have "\<bar>fl x\<bar> \<le> 1 + 1 / 100"
      using e1 small xpos xle by linarith
    then show ?thesis by (simp add: w_def)
  qed
  have e2: "\<bar>z - w\<bar> \<le> 2 powi (- 47)"
  proof (cases "w = 0")
    case True
    then show ?thesis by (simp add: z_def fl_def)
  next
    case False
    then show ?thesis
      using fl_error [of w 7] wabs by (simp add: z_def)
  qed
  have "w - Y = 100 * (fl x - x)"
    by (simp add: w_def Y_def algebra_simps)
  then have "\<bar>w - Y\<bar> = \<bar>100 * (fl x - x)\<bar>"
    by (simp only:)
  also have "\<dots> = 100 * \<bar>fl x - x\<bar>"
    by (simp only: abs_mult abs_numeral)
  also have "\<dots> \<le> 100 * 2 powi (- 53)"
    by (intro mult_left_mono e1) simp
  finally have "\<bar>w - Y\<bar> \<le> 100 * 2 powi (- 53)" .
  with e2 have err: "\<bar>z - Y\<bar> \<le> d"
    unfolding d_def by linarith
  have dsmall: "d < 1 / 7602"
    by (simp add: d_def)
  have kY: "of_int k - 1 / 2 \<le> Y" "Y < of_int k + 1 / 2"
    unfolding k_def round_def by linarith+
  have Yeq: "Y * (2 * of_nat t) = 200 * of_nat p"
    using tpos by (simp add: Y_def x_def)
  have T2: "(0::rat) < 2 * of_nat t" using T by simp
  have A: "(of_int k + 1 / 2) * (2 * of_nat t) = (of_int ((2 * k + 1) * int t) :: rat)"
    by (simp add: algebra_simps)
  have B: "(of_int k - 1 / 2) * (2 * of_nat t) = (of_int ((2 * k - 1) * int t) :: rat)"
    by (simp add: algebra_simps)
  have C: "Y * (2 * of_nat t) = (of_int (200 * int p) :: rat)"
    using Yeq by simp
  have D: "(a + 1 / (2 * of_nat t)) * (2 * of_nat t) = a * (2 * of_nat t) + 1" for a :: rat
    using T by (simp add: distrib_right)
  have hi_int: "200 * int p + 1 \<le> (2 * k + 1) * int t"
  proof -
    have "Y * (2 * of_nat t) < (of_int k + 1 / 2) * (2 * of_nat t)"
      using kY(2) T2 by (rule mult_strict_right_mono)
    then have "(of_int (200 * int p) :: rat) < of_int ((2 * k + 1) * int t)"
      by (simp only: A C)
    then have "200 * int p < (2 * k + 1) * int t"
      by (simp only: of_int_less_iff)
    then show ?thesis by simp
  qed
  have lo_int: "(2 * k - 1) * int t \<le> 200 * int p"
  proof -
    have "(of_int k - 1 / 2) * (2 * of_nat t) \<le> Y * (2 * of_nat t)"
      using kY(1) T2 by (intro mult_right_mono) simp_all
    then have "(of_int ((2 * k - 1) * int t) :: rat) \<le> of_int (200 * int p)"
      by (simp only: B C)
    then show ?thesis
      by (simp only: of_int_le_iff)
  qed
  have Ypos: "0 < Y" using xpos by (simp add: Y_def)
  have big: "k = 0 \<and> Y + 1 / 7602 \<le> 1 / 2" if "3800 < t"
  proof -
    have "3801 * p \<le> 19 * t"
      using that p19 by linarith
    then have "(of_nat (3801 * p) :: rat) \<le> of_nat (19 * t)"
      by (simp only: of_nat_le_iff)
    then have "3801 * of_nat p \<le> 19 * (of_nat t :: rat)"
      by simp
    moreover have "Y * of_nat t = 100 * of_nat p"
      using tpos by (simp add: Y_def x_def)
    ultimately have "(Y * 3801) * of_nat t \<le> 1900 * of_nat t"
      by (simp add: algebra_simps)
    then have "Y * 3801 \<le> 1900"
      using T by (rule mult_right_le_imp_le)
    then have Yb: "Y \<le> 1900 / 3801" by simp
    then have "Y + 1 / 7602 \<le> 1 / 2" by simp
    moreover have "k = 0"
      unfolding k_def round_def using Yb Ypos by (intro floor_unique) simp_all
    ultimately show ?thesis by simp
  qed
  have smallt: "1 / 7602 \<le> 1 / (2 * of_nat t :: rat)" if "t \<le> 3800"
  proof -
    have "(of_nat t :: rat) \<le> 3800"
      using that by (metis of_nat_le_iff of_nat_numeral)
    then show ?thesis
      using T by (intro divide_left_mono) simp_all
  qed
  have upper: "z < of_int k + 1 / 2"
  proof (cases "3800 < t")
    case True
    with big err dsmall show ?thesis by (simp add: abs_le_iff; linarith)
  next
    case False
    have "(of_int (200 * int p + 1) :: rat) \<le> of_int ((2 * k + 1) * int t)"
      using hi_int by (simp only: of_int_le_iff)
    then have "(of_int (200 * int p) :: rat) + 1 \<le> of_int ((2 * k + 1) * int t)"
      by simp
    then have "(Y + 1 / (2 * of_nat t)) * (2 * of_nat t) \<le> (of_int k + 1 / 2) * (2 * of_nat t)"
      by (simp only: A C D)
    then have "Y + 1 / (2 * of_nat t) \<le> of_int k + 1 / 2"
      using T2 by (rule mult_right_le_imp_le)
    with smallt False err dsmall show ?thesis
      by (simp add: abs_le_iff; linarith)
  qed
  have lower: "of_int k - 1 / 2 \<le> z"
  proof (cases "(2 * k - 1) * int t = 200 * int p")
    case tie: True
    have kpos: "1 \<le> k"
    proof (rule ccontr)
      assume "\<not> 1 \<le> k"
      then have "2 * k - 1 \<le> 0" by simp
      then have "(2 * k - 1) * int t \<le> 0"
        using tpos by (simp add: mult_le_0_iff)
      with tie p1 show False by simp
    qed
    define j where "j = nat (k - 1)"
    have kj: "k = int j + 1" using kpos by (simp add: j_def)
    have "int (200 * p) = int ((2 * j + 1) * t)"
      using tie by (simp add: kj algebra_simps)
    then have tie': "200 * p = (2 * j + 1) * t"
      by (simp only: of_nat_eq_iff)
    have "200 * p \<le> 200 * t"
      using pt by (rule mult_le_mono2)
    then have "(2 * j + 1) * t \<le> 200 * t"
      by (simp only: tie')
    then have "2 * j + 1 \<le> 200"
      using tpos by (simp only: mult_le_cancel2)
    then have j100: "j < 100" by simp
    have jK: "j \<in> {0, 1, 2, 3, 4, 5, 6, 7, 8, 9, 12, 17, 22, 27, 32, 37, 42, 47, 62, 87}"
      using p1 p19 tie' j100 by (rule score_tie_reach)
    have "(of_nat (200 * p) :: rat) = of_nat ((2 * j + 1) * t)"
      using tie' by simp
    then have xeq: "x = (2 * of_nat j + 1) / 200"
      using T by (simp add: x_def field_simps)
    have "of_nat j + 1 / 2 \<le> z"
      unfolding z_def w_def xeq by (rule score_tie [OF jK])
    then show ?thesis by (simp add: kj)
  next
    case False
    show ?thesis
    proof (cases "3800 < t")
      case True
      with big err dsmall Ypos show ?thesis by (simp add: abs_le_iff; linarith)
    next
      case small: False
      from False lo_int have "(2 * k - 1) * int t + 1 \<le> 200 * int p" by simp
      then have "(of_int ((2 * k - 1) * int t + 1) :: rat) \<le> of_int (200 * int p)"
        by (simp only: of_int_le_iff)
      then have "(of_int ((2 * k - 1) * int t) :: rat) + 1 \<le> of_int (200 * int p)"
        by simp
      then have "(of_int k - 1 / 2 + 1 / (2 * of_nat t)) * (2 * of_nat t) \<le> Y * (2 * of_nat t)"
        by (simp only: B C D)
      then have "of_int k - 1 / 2 + 1 / (2 * of_nat t) \<le> Y"
        using T2 by (rule mult_right_le_imp_le)
      with smallt small err dsmall show ?thesis
        by (simp add: abs_le_iff; linarith)
    qed
  qed
  have "\<lfloor>z + 1 / 2\<rfloor> = k"
    using lower upper by (intro floor_unique) linarith+
  then show ?thesis
    by (simp add: Math_round_def z_def w_def x_def k_def Y_def)
qed



end
